theory Spec2Isabelle
  imports Main "HOL-Library.AList"
begin

section \<open>The dev-mode connection handle (src/dev/websocket-shim.js)\<close>

text \<open>
  A \<open>BunWebSocketShim\<close> wraps one socket of the \<open>ws\<close> library. Shims are compared by
  object identity (\<open>shim === this\<close>, \<open>Set.has\<close>), so a shim is modelled by a number that
  names it, and the socket it wraps carries the same name.

  The module-level \<open>topicRegistry\<close> is a \<open>Map<string, Set<BunWebSocketShim>>\<close>. Both
  \<open>Map\<close> and \<open>Set\<close> iterate in insertion order, so the map is an association list and
  each set a list: \<open>Map.get\<close> is \<open>map_of\<close>, \<open>Map.set\<close> is \<open>AList.update\<close> (an existing key
  keeps its place, a new key goes last), \<open>Map.delete\<close> is \<open>AList.delete\<close>.
\<close>

type_synonym shim = nat

datatype ws_data = Text string | Binary "nat list"

type_synonym topic_registry = "(string \<times> shim list) list"

text \<open>\<open>Set.prototype.add\<close>, \<open>delete\<close>, \<open>has\<close> and \<open>size\<close> on the list that stands for a set.\<close>

definition set_add :: "shim \<Rightarrow> shim list \<Rightarrow> shim list" where
  "set_add x s = (if x \<in> set s then s else s @ [x])"

definition set_delete :: "shim \<Rightarrow> shim list \<Rightarrow> shim list" where
  "set_delete x s = removeAll x s"

definition set_has :: "shim list \<Rightarrow> shim \<Rightarrow> bool" where
  "set_has s x = (x \<in> set s)"

definition set_size :: "shim list \<Rightarrow> nat" where
  "set_size s = length s"

text \<open>
  The state the shim methods read and write: the registry, and for every wrapped socket
  its \<open>readyState\<close> (0 connecting, 1 open, 2 closing, 3 closed) and the frames handed to
  its \<open>send\<close>, each with the \<open>compress\<close> option it was sent with.
\<close>

record ws_state =
  topicRegistry :: topic_registry
  readyState :: "shim \<Rightarrow> nat"
  outbox :: "shim \<Rightarrow> (ws_data \<times> bool) list"

text \<open>
  \<open>send(data, compress)\<close>: returns 0 and sends nothing unless the socket is open;
  otherwise hands the frame to the socket with \<open>compress ?? false\<close> and returns
  \<open>data.length\<close> of a string or \<open>byteLength\<close> of binary data.
\<close>

fun data_length :: "ws_data \<Rightarrow> nat" where
  "data_length (Text s) = length s"
| "data_length (Binary b) = length b"

definition send :: "shim \<Rightarrow> ws_data \<Rightarrow> bool option \<Rightarrow> ws_state \<Rightarrow> nat \<times> ws_state" where
  "send this d compress st =
     (if readyState st this \<noteq> 1 then (0, st)
      else (data_length d,
            st\<lparr>outbox := (outbox st)(this := outbox st this @
                   [(d, case compress of None \<Rightarrow> False | Some c \<Rightarrow> c)])\<rparr>))"

definition subscribe :: "shim \<Rightarrow> string \<Rightarrow> ws_state \<Rightarrow> ws_state" where
  "subscribe this topic st =
     (let reg = topicRegistry st in
      case map_of reg topic of
        None \<Rightarrow> st\<lparr>topicRegistry := AList.update topic (set_add this []) reg\<rparr>
      | Some subs \<Rightarrow> st\<lparr>topicRegistry := AList.update topic (set_add this subs) reg\<rparr>)"

definition unsubscribe :: "shim \<Rightarrow> string \<Rightarrow> ws_state \<Rightarrow> ws_state" where
  "unsubscribe this topic st =
     (let reg = topicRegistry st in
      case map_of reg topic of
        None \<Rightarrow> st
      | Some subs \<Rightarrow>
          (let subs' = set_delete this subs in
           if set_size subs' = 0 then st\<lparr>topicRegistry := AList.delete topic reg\<rparr>
           else st\<lparr>topicRegistry := AList.update topic subs' reg\<rparr>))"

definition isSubscribed :: "shim \<Rightarrow> string \<Rightarrow> ws_state \<Rightarrow> bool" where
  "isSubscribed this topic st =
     (case map_of (topicRegistry st) topic of None \<Rightarrow> False | Some subs \<Rightarrow> set_has subs this)"

text \<open>The \<open>subscriptions\<close> getter: the topics whose set has this shim, in registry order.\<close>

definition subscriptions :: "shim \<Rightarrow> ws_state \<Rightarrow> string list" where
  "subscriptions this st = map fst (filter (\<lambda>(topic, subs). set_has subs this) (topicRegistry st))"

text \<open>
  \<open>publish(topic, data, compress)\<close>: the loop over the topic's set skips the publisher and
  every shim whose socket is not open, and adds up what \<open>send\<close> returns.
\<close>

fun publish_loop :: "shim \<Rightarrow> ws_data \<Rightarrow> bool option \<Rightarrow> shim list \<Rightarrow> nat \<Rightarrow> ws_state \<Rightarrow> nat \<times> ws_state" where
  "publish_loop this d compress [] sent st = (sent, st)"
| "publish_loop this d compress (shim # rest) sent st =
     (if shim = this then publish_loop this d compress rest sent st
      else if readyState st shim \<noteq> 1 then publish_loop this d compress rest sent st
      else (case send shim d compress st of
              (n, st') \<Rightarrow> publish_loop this d compress rest (sent + n) st'))"

definition publish :: "shim \<Rightarrow> string \<Rightarrow> ws_data \<Rightarrow> bool option \<Rightarrow> ws_state \<Rightarrow> nat \<times> ws_state" where
  "publish this topic d compress st =
     (case map_of (topicRegistry st) topic of
        None \<Rightarrow> (0, st)
      | Some subs \<Rightarrow> publish_loop this d compress subs 0 st)"

text \<open>
  The private \<open>#cleanup\<close>: one pass over the registry's entries; each visited set loses
  this shim, and an entry whose set is then empty is deleted. Deleting the entry being
  visited does not disturb the iteration of a \<open>Map\<close>, so the pass sees every entry once
  and the surviving entries keep their order.
\<close>

fun cleanup_loop :: "shim \<Rightarrow> topic_registry \<Rightarrow> topic_registry" where
  "cleanup_loop this [] = []"
| "cleanup_loop this ((topic, subs) # rest) =
     (let subs' = set_delete this subs in
      if set_size subs' = 0 then cleanup_loop this rest
      else (topic, subs') # cleanup_loop this rest)"

definition cleanup :: "shim \<Rightarrow> ws_state \<Rightarrow> ws_state" where
  "cleanup this st = st\<lparr>topicRegistry := cleanup_loop this (topicRegistry st)\<rparr>"

text \<open>
  The constructor registers \<open>ws.on('close', () => this.#cleanup())\<close>. The \<open>ws\<close> socket
  sets its \<open>readyState\<close> to 3 and then emits \<open>close\<close> in the same turn of the event
  loop, whatever ended the connection; that is the transition into the closed state as
  the shim sees it.
\<close>

definition on_close :: "shim \<Rightarrow> ws_state \<Rightarrow> ws_state" where
  "on_close this st = cleanup this (st\<lparr>readyState := (readyState st)(this := 3)\<rparr>)"

text \<open>\<open>_resetTopicRegistry\<close>, and the state of a freshly loaded module.\<close>

definition resetTopicRegistry :: "ws_state \<Rightarrow> ws_state" where
  "resetTopicRegistry st = st\<lparr>topicRegistry := []\<rparr>"

text \<open>
  What can happen to the shared state, one call or event at a time. A closed socket
  never reopens, so no event moves a \<open>readyState\<close> away from 3; \<open>Ready\<close> is the socket
  library moving a socket that is not yet closed to the open or the closing state.
\<close>

datatype event =
    Subscribe shim string
  | Unsubscribe shim string
  | Publish shim string ws_data "bool option"
  | Send shim ws_data "bool option"
  | Ready shim nat
  | Close shim

fun step :: "event \<Rightarrow> ws_state \<Rightarrow> ws_state" where
  "step (Subscribe h t) st = subscribe h t st"
| "step (Unsubscribe h t) st = unsubscribe h t st"
| "step (Publish h t d c) st = snd (publish h t d c st)"
| "step (Send h d c) st = snd (send h d c st)"
| "step (Ready h r) st =
     (if readyState st h \<noteq> 3 \<and> (r = 1 \<or> r = 2) then st\<lparr>readyState := (readyState st)(h := r)\<rparr> else st)"
| "step (Close h) st = on_close h st"

fun run :: "event list \<Rightarrow> ws_state \<Rightarrow> ws_state" where
  "run [] st = st"
| "run (e # es) st = run es (step e st)"

text \<open>No entry of the registry has an empty subscriber set.\<close>

definition no_empty_topic :: "topic_registry \<Rightarrow> bool" where
  "no_empty_topic reg = list_all (\<lambda>(topic, subs). subs \<noteq> []) reg"

text \<open>What \<open>Map\<close> and \<open>Set\<close> guarantee by construction: one entry per key, no element twice.\<close>

definition well_formed :: "topic_registry \<Rightarrow> bool" where
  "well_formed reg = (distinct (map fst reg) \<and> list_all (\<lambda>(topic, subs). distinct subs) reg)"

text \<open>
  The shims a publish on \<open>topic\<close> by \<open>this\<close> is meant for: the other subscribers of the
  topic whose socket is open, in the order the set lists them. This is the yardstick the
  loop is measured against, not a part of the source.
\<close>

definition recipients :: "shim \<Rightarrow> string \<Rightarrow> ws_state \<Rightarrow> shim list" where
  "recipients this topic st =
     (case map_of (topicRegistry st) topic of
        None \<Rightarrow> []
      | Some subs \<Rightarrow> filter (\<lambda>shim. shim \<noteq> this \<and> readyState st shim = 1) subs)"

text \<open>Three shims in one room, the third one closing; used to run the model.\<close>

definition room_state :: ws_state where
  "room_state = \<lparr>topicRegistry = [(''room'', [1, 2, 3])],
                 readyState = (\<lambda>s. if s = 3 then 2 else 1),
                 outbox = (\<lambda>_. [])\<rparr>"

text \<open>One shim alone in one topic.\<close>

definition lobby_state :: ws_state where
  "lobby_state = \<lparr>topicRegistry = [(''lobby'', [7])], readyState = (\<lambda>_. 1), outbox = (\<lambda>_. [])\<rparr>"

section \<open>The static responder (src/files/handler.js, \<open>sirv\<close> and its \<open>handle\<close>)\<close>

text \<open>
  A \<open>Headers\<close> object is a map from header names to values; names are case-insensitive
  and are kept here in lower case. The index \<open>files\<close> is a \<open>Map\<close> from URL path to the
  entry recorded by the scan. An entry's \<open>mtime\<close> is \<open>stats.mtimeMs\<close>, a floating-point
  number that the code only stores and formats, so its type is left open and the
  formatting (\<open>new Date(mtime).toUTCString()\<close>) is a parameter of the model.

  A response is what the \<open>Response\<close> constructor is given: status, headers, and a body
  that is \<open>null\<close>, \<open>Bun.file(path)\<close> or \<open>Bun.file(path).slice(begin, end)\<close>. The bytes
  are read from disk only when the response is sent.
\<close>

type_synonym headers = "string \<rightharpoonup> string"

record 'm file_entry =
  abs_path :: string
  file_size :: nat
  mtime :: 'm
  etag :: "string option"
  mime_type :: string
  has_br :: bool
  has_gz :: bool

record request =
  pathname :: string
  req_headers :: headers

datatype body = No_body | File_body string | File_slice string nat nat

record response =
  status :: nat
  headers :: headers
  body :: body

text \<open>
  The bytes of a body, given the content of every path. \<open>slice(begin, end)\<close> has an
  exclusive end and clips both bounds to the length of the file.
\<close>

fun body_bytes :: "(string \<Rightarrow> 'b list) \<Rightarrow> body \<Rightarrow> 'b list" where
  "body_bytes fs No_body = []"
| "body_bytes fs (File_body path) = fs path"
| "body_bytes fs (File_slice path begin end) = take (end - begin) (drop begin (fs path))"

subsection \<open>Strings and numbers of the host language\<close>

definition digit_chars :: string where
  "digit_chars = ''0123456789''"

text \<open>The class \<open>\d\<close> of a regular expression: the ten ASCII digits.\<close>

definition is_digit :: "char \<Rightarrow> bool" where
  "is_digit c = (c \<in> set digit_chars)"

definition digit_value :: "char \<Rightarrow> nat" where
  "digit_value c = of_char c - 48"

text \<open>
  \<open>parseInt(s, 10)\<close> on a string of digits, which is all the code applies it to. Numbers
  are mathematical integers here. The host's numbers are doubles, exact up to \<open>2^53\<close>;
  a longer digit string is rounded, but rounding is monotone and a file size is below
  \<open>2^53\<close>, so each comparison with the size made below comes out the same.
\<close>

definition parseInt :: "string \<Rightarrow> nat" where
  "parseInt s = foldl (\<lambda>acc c. acc * 10 + digit_value c) 0 s"

text \<open>\<open>String(n)\<close> and \<open>${n}\<close> for an integer \<open>n\<close>: its decimal numeral.\<close>

fun string_of_nat :: "nat \<Rightarrow> string" where
  "string_of_nat n =
     (if n < 10 then [digit_chars ! n]
      else string_of_nat (n div 10) @ [digit_chars ! (n mod 10)])"

definition String_of :: "int \<Rightarrow> string" where
  "String_of i = (if i < 0 then ''-'' @ string_of_nat (nat (- i)) else string_of_nat (nat i))"

definition startsWith :: "string \<Rightarrow> string \<Rightarrow> bool" where
  "startsWith s p = (take (length p) s = p)"

text \<open>\<open>s.includes(p)\<close>: \<open>p\<close> occurs in \<open>s\<close> as a substring.\<close>

fun str_includes :: "string \<Rightarrow> string \<Rightarrow> bool" where
  "str_includes [] p = (p = [])"
| "str_includes (c # cs) p = (startsWith (c # cs) p \<or> str_includes cs p)"

text \<open>
  \<open>range_header.match(/bytes=(\d+)-(\d*)/)\<close>. The expression has no anchors, so the
  match is the leftmost place where it fits. At one place it fits when \<open>bytes=\<close> is
  followed by a non-empty run of digits and then \<open>-\<close>; both groups are greedy, and
  giving back digits of the first group cannot help, because a digit follows. The result
  is the pair of groups.
\<close>

definition match_here :: "string \<Rightarrow> (string \<times> string) option" where
  "match_here s =
     (if startsWith s ''bytes='' then
        (let r = drop 6 s; g1 = takeWhile is_digit r; r' = dropWhile is_digit r in
         if g1 \<noteq> [] \<and> startsWith r' ''-'' then Some (g1, takeWhile is_digit (drop 1 r'))
         else None)
      else None)"

fun range_match :: "string \<Rightarrow> (string \<times> string) option" where
  "range_match [] = None"
| "range_match (c # cs) =
     (case match_here (c # cs) of Some m \<Rightarrow> Some m | None \<Rightarrow> range_match cs)"

subsection \<open>The request handler\<close>

text \<open>Stripping the base path: \<open>pathname.slice(base_path.length) || '/'\<close>.\<close>

definition strip_base :: "string \<Rightarrow> string \<Rightarrow> string" where
  "strip_base base_path p =
     (if base_path \<noteq> [] \<and> startsWith p base_path
      then (let rest = drop (length base_path) p in if rest = [] then ''/'' else rest)
      else p)"

text \<open>
  The headers every answer starts from, after the \<open>setHeaders\<close> callback (if the options
  have one) has had its turn. \<open>if (file.etag)\<close> holds for a non-empty string.
\<close>

definition base_headers ::
  "('m \<Rightarrow> string) \<Rightarrow> (headers \<Rightarrow> string \<Rightarrow> headers) option \<Rightarrow> 'm file_entry \<Rightarrow> string \<Rightarrow> headers" where
  "base_headers toUTCString setHeaders file p =
     (let h = [''content-type'' \<mapsto> mime_type file,
               ''content-length'' \<mapsto> String_of (int (file_size file)),
               ''last-modified'' \<mapsto> toUTCString (mtime file)];
          h = (case etag file of
                 None \<Rightarrow> h
               | Some e \<Rightarrow> if e \<noteq> [] then h(''etag'' \<mapsto> e) else h)
      in case setHeaders of None \<Rightarrow> h | Some f \<Rightarrow> f h p)"

text \<open>The test \<open>if_none_match === file.etag\<close> under \<open>if (file.etag)\<close>.\<close>

definition not_modified :: "'m file_entry \<Rightarrow> request \<Rightarrow> bool" where
  "not_modified file req =
     (case etag file of
        None \<Rightarrow> False
      | Some e \<Rightarrow> e \<noteq> [] \<and> req_headers req ''if-none-match'' = Some e)"

text \<open>
  Content negotiation: the path to serve, the chosen encoding (\<open>null\<close>, \<open>br\<close> or
  \<open>gzip\<close>) and the headers after the step.
\<close>

definition negotiate :: "'m file_entry \<Rightarrow> string \<Rightarrow> headers \<Rightarrow> string \<times> string option \<times> headers" where
  "negotiate file accept_encoding h =
     (if has_br file \<and> str_includes accept_encoding ''br'' then
        (abs_path file @ ''.br'', Some ''br'',
         (h(''content-encoding'' \<mapsto> ''br'', ''vary'' \<mapsto> ''Accept-Encoding''))(''content-length'' := None))
      else if has_gz file \<and> str_includes accept_encoding ''gzip'' then
        (abs_path file @ ''.gz'', Some ''gzip'',
         (h(''content-encoding'' \<mapsto> ''gzip'', ''vary'' \<mapsto> ''Accept-Encoding''))(''content-length'' := None))
      else if has_br file \<or> has_gz file then
        (abs_path file, None, h(''vary'' \<mapsto> ''Accept-Encoding''))
      else (abs_path file, None, h))"

text \<open>
  The match the range step works with: none when the header is missing or empty, or
  when an encoding was chosen.
\<close>

definition range_of :: "request \<Rightarrow> string option \<Rightarrow> (string \<times> string) option" where
  "range_of req content_encoding =
     (case req_headers req ''range'' of
        None \<Rightarrow> None
      | Some range_header \<Rightarrow>
          if range_header \<noteq> [] \<and> content_encoding = None then range_match range_header
          else None)"

text \<open>\<open>request.headers.get('accept-encoding') || ''\<close>.\<close>

definition accept_encoding_of :: "request \<Rightarrow> string" where
  "accept_encoding_of req =
     (case req_headers req ''accept-encoding'' of None \<Rightarrow> [] | Some a \<Rightarrow> a)"

text \<open>
  The answer of the range step once the header has matched, with groups \<open>g1\<close> and
  \<open>g2\<close>: 416 with a header object of its own, or 206 on the headers built so far.
\<close>

definition range_response ::
  "'m file_entry \<Rightarrow> string \<Rightarrow> headers \<Rightarrow> string \<Rightarrow> string \<Rightarrow> response" where
  "range_response file serve_path h g1 g2 =
     (let start = int (parseInt g1);
          end = (if g2 \<noteq> [] then int (parseInt g2) else int (file_size file) - 1)
      in if start \<ge> int (file_size file) \<or> end \<ge> int (file_size file) \<or> start > end
         then \<lparr>status = 416,
               headers = [''content-range'' \<mapsto> ''bytes */'' @ String_of (int (file_size file))],
               body = No_body\<rparr>
         else \<lparr>status = 206,
               headers = h(''content-range'' \<mapsto>
                             ''bytes '' @ String_of start @ ''-'' @ String_of end
                             @ ''/'' @ String_of (int (file_size file)),
                           ''content-length'' \<mapsto> String_of (end - start + 1)),
               body = File_slice serve_path (nat start) (nat (end + 1))\<rparr>)"

text \<open>\<open>handle(request)\<close>; \<open>None\<close> is the \<open>null\<close> that lets the caller fall through.\<close>

definition handle ::
  "string \<Rightarrow> (string \<rightharpoonup> 'm file_entry) \<Rightarrow> ('m \<Rightarrow> string) \<Rightarrow>
   (headers \<Rightarrow> string \<Rightarrow> headers) option \<Rightarrow> request \<Rightarrow> response option" where
  "handle base_path files toUTCString setHeaders req =
     (let p = strip_base base_path (pathname req) in
      case files p of
        None \<Rightarrow> None
      | Some file \<Rightarrow>
          (let h = base_headers toUTCString setHeaders file p in
           if not_modified file req then Some \<lparr>status = 304, headers = h, body = No_body\<rparr>
           else
             (case negotiate file (accept_encoding_of req) h of
                (serve_path, content_encoding, h) \<Rightarrow>
                  (case range_of req content_encoding of
                     Some (g1, g2) \<Rightarrow> Some (range_response file serve_path h g1 g2)
                   | None \<Rightarrow> Some \<lparr>status = 200, headers = h, body = File_body serve_path\<rparr>))))"

text \<open>
  The entry the scan of \<open>sirv\<close> records for one file: the validator is
  \<open>W/"<size>-<mtime>"\<close> when \<open>opts.etag\<close> is not \<open>false\<close>, and \<open>null\<close> otherwise. The
  content type and the two probes for siblings are taken as found.
\<close>

definition scan_entry ::
  "bool \<Rightarrow> ('m \<Rightarrow> string) \<Rightarrow> string \<Rightarrow> nat \<Rightarrow> 'm \<Rightarrow> string \<Rightarrow> bool \<Rightarrow> bool \<Rightarrow> 'm file_entry" where
  "scan_entry use_etag show_number path sz mt ty br gz =
     \<lparr>abs_path = path, file_size = sz, mtime = mt,
      etag = (if use_etag
              then Some (''W/'' @ [CHR 0x22] @ String_of (int sz) @ ''-'' @ show_number mt @ [CHR 0x22])
              else None),
      mime_type = ty, has_br = br, has_gz = gz\<rparr>"

text \<open>
  Two indexed files to run the model on: \<open>data.txt\<close>, thirteen bytes, with a gzip
  sibling, and \<open>app.js\<close> with both siblings.
\<close>

definition data_txt :: "nat file_entry" where
  "data_txt = scan_entry True (\<lambda>n. String_of (int n)) ''/srv/data.txt'' 13 1700000000000
                ''text/plain'' False True"

definition app_js :: "nat file_entry" where
  "app_js = scan_entry True (\<lambda>n. String_of (int n)) ''/srv/app.js'' 2048 1700000000000
              ''application/javascript'' True True"

definition site_index :: "string \<rightharpoonup> nat file_entry" where
  "site_index = [''/data.txt'' \<mapsto> data_txt, ''/app.js'' \<mapsto> app_js]"

definition site_fs :: "string \<Rightarrow> string" where
  "site_fs path = (if path = ''/srv/data.txt'' then ''Hello, World!'' else [])"

definition site_date :: "nat \<Rightarrow> string" where
  "site_date m = ''Tue, 14 Nov 2023 22:13:20 GMT''"

definition get :: "string \<Rightarrow> (string \<times> string) list \<Rightarrow> request" where
  "get p hs = \<lparr>pathname = p, req_headers = map_of hs\<rparr>"

definition serve :: "request \<Rightarrow> response option" where
  "serve req = handle [] site_index site_date None req"

section \<open>The dev upgrade bridge (src/dev/websocket-server.js, \<open>handleUpgrade\<close>)\<close>

text \<open>
  What the bridge can observe of one run of the user's \<open>upgrade(request, fakeServer)\<close>:
  the calls it made to \<open>fakeServer.upgrade\<close>, each with its \<open>opts?.data\<close> (\<open>None\<close> when
  absent, which the facade replaces by \<open>{}\<close>), and whether it returned a \<open>Response\<close>,
  returned anything else (\<open>undefined\<close> included), or threw.
\<close>

datatype callback_end = Returned_Response | Returned_other | Thrown

record 'd callback_run =
  facade_calls :: "'d option list"
  ending :: callback_end

text \<open>
  The upgrade request as the bridge reads it: the \<open>sec-websocket-protocol\<close> header, the
  peer address of the socket, and whether \<open>new URL(req.url || '/', ...)\<close> accepts the URL
  (it throws otherwise). The user module has an optional \<open>upgrade\<close> and an optional
  \<open>open\<close> export; \<open>importFresh\<close> yields the module or rejects (\<open>None\<close>).
\<close>

record incoming =
  sec_websocket_protocol :: "string option"
  remoteAddress :: "string option"
  url_ok :: bool

record 'd user_module =
  upgrade :: "(incoming \<Rightarrow> 'd callback_run) option"
  has_open :: bool

text \<open>
  What becomes of the socket: left alone, destroyed, or handed to \<open>wss.handleUpgrade\<close>,
  which completes the handshake and creates the shim with the captured data (\<open>None\<close> for
  \<open>{}\<close>) and the remote address. \<open>open_called\<close> tells whether \<open>setupHandlers\<close> invoked the
  module's \<open>open\<close>.
\<close>

datatype 'd socket_fate = Untouched | Destroyed | Upgraded "'d option" string

record 'd bridge_result =
  socket :: "'d socket_fate"
  open_called :: bool

definition accept :: "incoming \<Rightarrow> 'd option \<Rightarrow> 'd user_module \<Rightarrow> 'd bridge_result" where
  "accept req upgradeData handler =
     \<lparr>socket = Upgraded upgradeData
                 (case remoteAddress req of
                    None \<Rightarrow> ''127.0.0.1''
                  | Some a \<Rightarrow> if a = [] then ''127.0.0.1'' else a),
      open_called = has_open handler\<rparr>"

definition handleUpgrade :: "incoming \<Rightarrow> 'd user_module option \<Rightarrow> 'd bridge_result" where
  "handleUpgrade req imported =
     (if sec_websocket_protocol req = Some ''vite-hmr''
      then \<lparr>socket = Untouched, open_called = False\<rparr>
      else case imported of
        None \<Rightarrow> \<lparr>socket = Destroyed, open_called = False\<rparr>
      | Some handler \<Rightarrow>
          (case upgrade handler of
             None \<Rightarrow> accept req None handler
           | Some callback \<Rightarrow>
               if \<not> url_ok req then \<lparr>socket = Destroyed, open_called = False\<rparr>
               else
                 (let r = callback req;
                      shouldUpgrade = (facade_calls r \<noteq> []);
                      upgradeData = (if shouldUpgrade then last (facade_calls r) else None)
                  in if ending r = Thrown then \<lparr>socket = Destroyed, open_called = False\<rparr>
                     else if \<not> shouldUpgrade then
                       (if ending r = Returned_Response
                        then \<lparr>socket = Destroyed, open_called = False\<rparr>
                        else \<lparr>socket = Untouched, open_called = False\<rparr>)
                     else accept req upgradeData handler)))"

text \<open>
  An upgrade request and two user modules to run the bridge on: one whose \<open>upgrade\<close>
  returns a \<open>Response\<close>, one whose \<open>upgrade\<close> returns nothing; neither calls the facade.
\<close>

definition plain_upgrade_request :: incoming where
  "plain_upgrade_request = \<lparr>sec_websocket_protocol = None, remoteAddress = Some ''10.0.0.1'', url_ok = True\<rparr>"

definition forbidding_module :: "nat user_module" where
  "forbidding_module =
     \<lparr>upgrade = Some (\<lambda>req. \<lparr>facade_calls = [], ending = Returned_Response\<rparr>), has_open = True\<rparr>"

definition silent_module :: "nat user_module" where
  "silent_module =
     \<lparr>upgrade = Some (\<lambda>req. \<lparr>facade_calls = [], ending = Returned_other\<rparr>), has_open = True\<rparr>"

section \<open>Properties of the topic registry\<close>

lemma publish_loop_registry:
  "topicRegistry (snd (publish_loop this d c subs n st)) = topicRegistry st"
  by (induction subs arbitrary: n st) (auto simp: send_def split: prod.splits)

lemma publish_loop_readyState:
  "readyState (snd (publish_loop this d c subs n st)) = readyState st"
  by (induction subs arbitrary: n st) (auto simp: send_def split: prod.splits)

lemma publish_loop_fst:
  "fst (publish_loop this d c subs n st) =
     n + data_length d * length (filter (\<lambda>shim. shim \<noteq> this \<and> readyState st shim = 1) subs)"
proof (induction subs arbitrary: n st)
  case Nil
  show ?case by simp
next
  case (Cons s subs)
  have r: "readyState (snd (send s d c st)) = readyState st"
    by (simp add: send_def)
  show ?case
    using Cons.IH[of n st] Cons.IH[of "n + data_length d" "snd (send s d c st)"] r
    by (auto simp: send_def split: prod.splits)
qed

lemma publish_loop_outbox:
  "outbox (snd (publish_loop this d c subs n st)) g =
     outbox st g @
     replicate (count_list (filter (\<lambda>shim. shim \<noteq> this \<and> readyState st shim = 1) subs) g)
       (d, case c of None \<Rightarrow> False | Some b \<Rightarrow> b)"
proof (induction subs arbitrary: n st)
  case Nil
  show ?case by simp
next
  case (Cons s subs)
  show ?case
    using Cons.IH[of n st] Cons.IH[of "n + data_length d" "snd (send s d c st)"]
    by (auto simp: send_def replicate_append_same split: prod.splits)
qed

lemma publish_registry: "topicRegistry (snd (publish h t d c st)) = topicRegistry st"
  by (simp add: publish_def publish_loop_registry split: option.splits)

lemma publish_readyState: "readyState (snd (publish h t d c st)) = readyState st"
  by (simp add: publish_def publish_loop_readyState split: option.splits)

lemma publish_fst: "fst (publish h t d c st) = data_length d * length (recipients h t st)"
  by (simp add: publish_def recipients_def publish_loop_fst split: option.splits)

lemma publish_outbox:
  "outbox (snd (publish h t d c st)) g =
     outbox st g @
     replicate (count_list (recipients h t st) g) (d, case c of None \<Rightarrow> False | Some b \<Rightarrow> b)"
  by (simp add: publish_def recipients_def publish_loop_outbox split: option.splits)

lemma well_formed_lookup:
  "well_formed reg \<Longrightarrow> map_of reg t = Some subs \<Longrightarrow> distinct subs"
  by (induction reg) (auto simp: well_formed_def split: if_splits)

lemma recipients_set:
  "set (recipients h t st) = {g. isSubscribed g t st \<and> g \<noteq> h \<and> readyState st g = 1}"
  by (cases "map_of (topicRegistry st) t") (auto simp: recipients_def isSubscribed_def set_has_def)

lemma recipients_distinct:
  "well_formed (topicRegistry st) \<Longrightarrow> distinct (recipients h t st)"
  by (auto simp: recipients_def dest: well_formed_lookup split: option.splits)

lemma count_list_distinct:
  "distinct xs \<Longrightarrow> count_list xs x = (if x \<in> set xs then 1 else 0)"
  by (induction xs) auto

subsection \<open>Publish\<close>

text \<open>
  C2, as the code has it. For every topic \<open>t\<close> and every shim \<open>h\<close>, \<open>publish(t, data)\<close>
  called on \<open>h\<close> hands \<open>data\<close> exactly once to every other subscriber of \<open>t\<close> whose socket
  is open, and to nobody else: not to \<open>h\<close>, not to a subscriber that is not open, not to a
  shim outside the topic. The number returned is the sum of what \<open>send\<close> returned for the
  recipients, that is the length of \<open>data\<close> times the number of recipients. For a topic
  \<open>t'\<close> without an entry in the registry the call returns 0 and changes nothing.
\<close>

theorem publish_reaches_other_open_subscribers:
  assumes "well_formed (topicRegistry st)"
  shows "(\<forall>g. outbox (snd (publish h t d c st)) g =
            (if isSubscribed g t st \<and> g \<noteq> h \<and> readyState st g = 1
             then outbox st g @ [(d, case c of None \<Rightarrow> False | Some b \<Rightarrow> b)]
             else outbox st g))
       \<and> set (recipients h t st) = {g. isSubscribed g t st \<and> g \<noteq> h \<and> readyState st g = 1}
       \<and> distinct (recipients h t st)
       \<and> fst (publish h t d c st) = data_length d * length (recipients h t st)
       \<and> (map_of (topicRegistry st) t' = None \<longrightarrow> publish h t' d c st = (0, st))"
proof -
  have dr: "distinct (recipients h t st)"
    using assms by (rule recipients_distinct)
  have "outbox (snd (publish h t d c st)) g =
            (if isSubscribed g t st \<and> g \<noteq> h \<and> readyState st g = 1
             then outbox st g @ [(d, case c of None \<Rightarrow> False | Some b \<Rightarrow> b)]
             else outbox st g)" for g
    using recipients_set[of h t st]
    by (simp add: publish_outbox count_list_distinct[OF dr])
  moreover have "map_of (topicRegistry st) t' = None \<longrightarrow> publish h t' d c st = (0, st)"
    by (simp add: publish_def)
  ultimately show ?thesis
    using dr by (simp add: recipients_set publish_fst)
qed

theorem publish_reaches_other_open_subscribers_witness:
  "well_formed (topicRegistry room_state)
   \<and> outbox (snd (publish 1 ''room'' (Text ''hello'') None room_state)) 2 = [(Text ''hello'', False)]
   \<and> outbox (snd (publish 1 ''room'' (Text ''hello'') None room_state)) 1 = []
   \<and> outbox (snd (publish 1 ''room'' (Text ''hello'') None room_state)) 3 = []
   \<and> fst (publish 1 ''room'' (Text ''hello'') None room_state) = 5
   \<and> map_of (topicRegistry room_state) ''nope'' = None
   \<and> publish 1 ''nope'' (Text ''hello'') None room_state = (0, room_state)"
proof -
  have wf: "well_formed (topicRegistry room_state)"
    by (simp add: room_state_def well_formed_def)
  have none: "map_of (topicRegistry room_state) ''nope'' = None"
    by (simp add: room_state_def)
  have r: "recipients 1 ''room'' room_state = [2]"
    by (simp add: room_state_def recipients_def)
  have s: "isSubscribed 2 ''room'' room_state" "readyState room_state 2 = 1"
    "readyState room_state 3 \<noteq> 1" "outbox room_state = (\<lambda>_. [])"
    by (simp_all add: room_state_def isSubscribed_def set_has_def)
  from publish_reaches_other_open_subscribers
    [OF wf, of 1 "''room''" "Text ''hello''" None "''nope''"]
  show ?thesis using wf none r s by simp
qed

text \<open>
  The number returned is not the number of recipients: with one open recipient and the
  five-character text \<open>hello\<close>, publish returns 5.
\<close>

theorem publish_count_counterexample:
  "recipients 1 ''room'' room_state = [2]
   \<and> fst (publish 1 ''room'' (Text ''hello'') None room_state) = 5
   \<and> fst (publish 1 ''room'' (Text ''hello'') None room_state) \<noteq> length (recipients 1 ''room'' room_state)"
  by (simp add: room_state_def publish_def send_def recipients_def)

text \<open>
  C10. A publish never changes who is subscribed to what: after \<open>h.publish(t, data)\<close> the
  registry is the one before the call, so every topic has the same subscriber set and
  \<open>isSubscribed\<close> and \<open>subscriptions\<close> answer as before for every shim, also when
  subscribers that are not open were skipped. The ready states are untouched as well.
\<close>

theorem publish_keeps_subscriptions:
  "topicRegistry (snd (publish h t d c st)) = topicRegistry st
   \<and> (\<forall>g t'. isSubscribed g t' (snd (publish h t d c st)) = isSubscribed g t' st)
   \<and> (\<forall>g. subscriptions g (snd (publish h t d c st)) = subscriptions g st)
   \<and> readyState (snd (publish h t d c st)) = readyState st"
  by (simp add: isSubscribed_def subscriptions_def publish_registry publish_readyState)

theorem publish_keeps_subscriptions_witness:
  "topicRegistry (snd (publish 1 ''room'' (Text ''hello'') None room_state)) = [(''room'', [1, 2, 3])]
   \<and> isSubscribed 3 ''room'' (snd (publish 1 ''room'' (Text ''hello'') None room_state))"
  using publish_keeps_subscriptions [of 1 "''room''" "Text ''hello''" None room_state]
  by (simp add: room_state_def isSubscribed_def set_has_def)

subsection \<open>Closing\<close>

lemma cleanup_loop_absent: "list_all (\<lambda>(t, subs). h \<notin> set subs) (cleanup_loop h reg)"
  by (induction h reg rule: cleanup_loop.induct) (auto simp: set_delete_def Let_def)

lemma cleanup_loop_map_of:
  "map_of (cleanup_loop h reg) t = Some subs \<Longrightarrow> h \<notin> set subs"
  by (induction h reg rule: cleanup_loop.induct) (auto simp: set_delete_def Let_def split: if_splits)

lemma step_closed:
  "readyState st h = 3 \<Longrightarrow> readyState (step e st) h = 3 \<and> outbox (step e st) h = outbox st h"
proof (cases e)
  case (Publish g t d c)
  assume closed: "readyState st h = 3"
  then have "h \<notin> set (recipients g t st)"
    by (simp add: recipients_set)
  then show ?thesis
    using closed Publish by (simp add: publish_readyState publish_outbox)
qed (auto simp: subscribe_def unsubscribe_def send_def on_close_def cleanup_def Let_def
      split: option.splits)

lemma run_closed:
  "readyState st h = 3 \<Longrightarrow> readyState (run es st) h = 3 \<and> outbox (run es st) h = outbox st h"
proof (induction es arbitrary: st)
  case Nil
  then show ?case by simp
next
  case (Cons e es)
  from step_closed[OF Cons.prems, of e] Cons.IH[of "step e st"]
  show ?case by simp
qed

text \<open>
  C7. When the socket of a shim \<open>h\<close> closes, the listener installed by the constructor
  runs in the same turn and removes \<open>h\<close> from the subscriber set of every topic, so no
  publish can come in between. Afterwards \<open>isSubscribed(t)\<close> is false on \<open>h\<close> for every
  topic \<open>t\<close>, no set of the registry contains \<open>h\<close>, a publish from any shim on any topic
  hands nothing to \<open>h\<close>, and neither does anything that happens later, whatever calls and
  events follow.
\<close>

theorem closed_shim_leaves_every_topic:
  "(\<forall>t. \<not> isSubscribed h t (on_close h st))
   \<and> list_all (\<lambda>(t, subs). h \<notin> set subs) (topicRegistry (on_close h st))
   \<and> readyState (on_close h st) h = 3
   \<and> (\<forall>g t d c. outbox (snd (publish g t d c (on_close h st))) h = outbox st h)
   \<and> (\<forall>es. outbox (run es (on_close h st)) h = outbox st h)"
proof -
  have r: "readyState (on_close h st) h = 3"
    by (simp add: on_close_def cleanup_def)
  have o: "outbox (on_close h st) h = outbox st h"
    by (simp add: on_close_def cleanup_def)
  have a: "\<not> isSubscribed h t (on_close h st)" for t
    by (auto simp: isSubscribed_def on_close_def cleanup_def set_has_def
        dest: cleanup_loop_map_of split: option.splits)
  have b: "list_all (\<lambda>(t, subs). h \<notin> set subs) (topicRegistry (on_close h st))"
    by (simp add: on_close_def cleanup_def cleanup_loop_absent)
  have c: "outbox (run es (on_close h st)) h = outbox st h" for es
    using run_closed[OF r, of es] o by simp
  have d: "outbox (snd (publish g t d c (on_close h st))) h = outbox st h" for g t d c
    using c[of "[Publish g t d c]"] by simp
  show ?thesis using a b c d r by blast
qed

theorem closed_shim_leaves_every_topic_witness:
  "\<not> isSubscribed 2 ''room'' (on_close 2 room_state)
   \<and> topicRegistry (on_close 2 room_state) = [(''room'', [1, 3])]
   \<and> outbox (snd (publish 1 ''room'' (Text ''hello'') None (on_close 2 room_state))) 2 = []
   \<and> outbox (run [Subscribe 2 ''room'', Ready 2 1, Publish 1 ''room'' (Text ''hello'') None]
               (on_close 2 room_state)) 2 = []"
proof -
  have reg: "topicRegistry (on_close 2 room_state) = [(''room'', [1, 3])]"
    by (simp add: on_close_def cleanup_def room_state_def set_delete_def set_size_def)
  have o: "outbox room_state 2 = []"
    by (simp add: room_state_def)
  from closed_shim_leaves_every_topic [of 2 room_state]
  have "\<not> isSubscribed 2 ''room'' (on_close 2 room_state)"
    and "outbox (snd (publish 1 ''room'' (Text ''hello'') None (on_close 2 room_state))) 2
         = outbox room_state 2"
    and "outbox (run [Subscribe 2 ''room'', Ready 2 1, Publish 1 ''room'' (Text ''hello'') None]
               (on_close 2 room_state)) 2 = outbox room_state 2"
    by blast+
  then show ?thesis using reg o by (simp del: run.simps)
qed

subsection \<open>No empty topic\<close>

lemma no_empty_update:
  "no_empty_topic reg \<Longrightarrow> subs \<noteq> [] \<Longrightarrow> no_empty_topic (AList.update t subs reg)"
  by (induction reg) (auto simp: no_empty_topic_def)

lemma no_empty_delete:
  "no_empty_topic reg \<Longrightarrow> no_empty_topic (AList.delete t reg)"
  by (induction reg) (auto simp: no_empty_topic_def)

lemma no_empty_cleanup_loop: "no_empty_topic (cleanup_loop h reg)"
  by (induction h reg rule: cleanup_loop.induct)
    (auto simp: no_empty_topic_def set_size_def Let_def)

lemma no_empty_subscribe:
  "no_empty_topic (topicRegistry st) \<Longrightarrow> no_empty_topic (topicRegistry (subscribe h t st))"
  by (auto simp: subscribe_def Let_def set_add_def intro!: no_empty_update split: option.splits)

lemma no_empty_unsubscribe:
  "no_empty_topic (topicRegistry st) \<Longrightarrow> no_empty_topic (topicRegistry (unsubscribe h t st))"
  by (auto simp: unsubscribe_def Let_def set_size_def intro!: no_empty_update no_empty_delete
      split: option.splits)

lemma no_empty_step:
  "no_empty_topic (topicRegistry st) \<Longrightarrow> no_empty_topic (topicRegistry (step e st))"
  by (cases e) (auto simp: no_empty_subscribe no_empty_unsubscribe publish_registry send_def
      on_close_def cleanup_def no_empty_cleanup_loop)

lemma no_empty_run:
  "no_empty_topic (topicRegistry st) \<Longrightarrow> no_empty_topic (topicRegistry (run es st))"
  by (induction es arbitrary: st) (auto simp: no_empty_step)

lemma subscribe_creates:
  "map_of (topicRegistry st) t = None \<Longrightarrow> map_of (topicRegistry (subscribe h t st)) t = Some [h]"
  by (simp add: subscribe_def set_add_def update_conv')

lemma unsubscribe_deletes:
  "map_of (topicRegistry st) t = Some [h] \<Longrightarrow> map_of (topicRegistry (unsubscribe h t st)) t = None"
  by (simp add: unsubscribe_def set_delete_def set_size_def delete_conv')

lemma cleanup_loop_keys: "fst ` set (cleanup_loop h reg) \<subseteq> fst ` set reg"
  by (induction h reg rule: cleanup_loop.induct) (auto simp: Let_def)

lemma cleanup_loop_deletes:
  "distinct (map fst reg) \<Longrightarrow> map_of reg t = Some [h] \<Longrightarrow> map_of (cleanup_loop h reg) t = None"
proof (induction h reg rule: cleanup_loop.induct)
  case (1 this)
  then show ?case by simp
next
  case (2 this topic subs rest)
  show ?case
  proof (cases "topic = t")
    case True
    with "2.prems" have "t \<notin> fst ` set rest" and "subs = [this]" by auto
    then have "t \<notin> fst ` set (cleanup_loop this rest)"
      using cleanup_loop_keys[of this rest] by blast
    then have "map_of (cleanup_loop this rest) t = None"
      by (simp add: map_of_eq_None_iff)
    with \<open>subs = [this]\<close> show ?thesis
      by (simp add: set_delete_def set_size_def)
  next
    case False
    with "2.IH" "2.prems" show ?thesis
      by (auto simp: Let_def)
  qed
qed

text \<open>
  C9. Starting from a registry without an empty subscriber set (the empty registry of a
  fresh module is one), every sequence of subscribe, unsubscribe and close-triggered
  cleanup, mixed with any publishes, sends and state changes of sockets, leaves a
  registry in which no entry has an empty subscriber set. The first subscribe to a topic
  \<open>t1\<close> creates its entry, with the subscriber as only member; when the only subscriber
  of a topic \<open>t2\<close> unsubscribes, or its socket closes, the entry is deleted.
\<close>

theorem registry_keeps_no_empty_topic:
  assumes "no_empty_topic (topicRegistry st)"
  shows "no_empty_topic (topicRegistry (run es st))
       \<and> (map_of (topicRegistry st) t1 = None \<longrightarrow>
            map_of (topicRegistry (subscribe h t1 st)) t1 = Some [h])
       \<and> (map_of (topicRegistry st) t2 = Some [h] \<longrightarrow>
            map_of (topicRegistry (unsubscribe h t2 st)) t2 = None)
       \<and> (distinct (map fst (topicRegistry st)) \<and> map_of (topicRegistry st) t2 = Some [h] \<longrightarrow>
            map_of (topicRegistry (on_close h st)) t2 = None)"
  using assms
  by (simp add: no_empty_run subscribe_creates unsubscribe_deletes cleanup_loop_deletes
      on_close_def cleanup_def)

theorem registry_keeps_no_empty_topic_witness:
  "no_empty_topic (topicRegistry lobby_state)
   \<and> no_empty_topic (topicRegistry
        (run [Subscribe 8 ''chat'', Unsubscribe 7 ''lobby'', Close 8] lobby_state))
   \<and> map_of (topicRegistry lobby_state) ''chat'' = None
   \<and> map_of (topicRegistry (subscribe 8 ''chat'' lobby_state)) ''chat'' = Some [8]
   \<and> distinct (map fst (topicRegistry lobby_state))
   \<and> map_of (topicRegistry lobby_state) ''lobby'' = Some [7]
   \<and> map_of (topicRegistry (unsubscribe 7 ''lobby'' lobby_state)) ''lobby'' = None
   \<and> map_of (topicRegistry (on_close 7 lobby_state)) ''lobby'' = None"
proof -
  have a: "no_empty_topic (topicRegistry lobby_state)"
    by (simp add: lobby_state_def no_empty_topic_def)
  have b: "map_of (topicRegistry lobby_state) ''chat'' = None"
    "map_of (topicRegistry lobby_state) ''lobby'' = Some [7]"
    "distinct (map fst (topicRegistry lobby_state))"
    by (simp_all add: lobby_state_def)
  from registry_keeps_no_empty_topic
    [OF a, of "[Subscribe 8 ''chat'', Unsubscribe 7 ''lobby'', Close 8]" "''chat''" 8 "''lobby''"]
    registry_keeps_no_empty_topic [OF a, of "[]" "''chat''" 7 "''lobby''"]
  show ?thesis using a b by simp
qed

section \<open>Properties of the static responder\<close>

text \<open>
  The decimal numeral written by \<open>String\<close> is a non-empty string of digits that
  \<open>parseInt\<close> reads back as the same number.
\<close>

lemma digit_value_digit: "k < 10 \<Longrightarrow> digit_value (digit_chars ! k) = k"
proof -
  assume "k < 10"
  then have "k \<in> {0, 1, 2, 3, 4, 5, 6, 7, 8, 9}" by auto
  then show ?thesis
    by (auto simp: digit_value_def digit_chars_def)
qed

lemma parseInt_snoc: "parseInt (s @ [c]) = parseInt s * 10 + digit_value c"
  by (simp add: parseInt_def)

lemma parseInt_string_of_nat: "parseInt (string_of_nat n) = n"
proof (induction n rule: string_of_nat.induct)
  case (1 n)
  show ?case
  proof (cases "n < 10")
    case True
    then show ?thesis
      using digit_value_digit[of n] by (simp add: parseInt_def)
  next
    case False
    have "n mod 10 < 10" by simp
    from digit_value_digit[OF this] "1.IH"[OF False] False
    show ?thesis
      by (subst string_of_nat.simps) (simp add: parseInt_snoc del: string_of_nat.simps)
  qed
qed

lemma string_of_nat_digits: "list_all is_digit (string_of_nat n) \<and> string_of_nat n \<noteq> []"
proof (induction n rule: string_of_nat.induct)
  case (1 n)
  have d: "is_digit (digit_chars ! k)" if "k < 10" for k
  proof -
    from that have "k \<in> {0, 1, 2, 3, 4, 5, 6, 7, 8, 9}" by auto
    then show ?thesis by (auto simp: is_digit_def digit_chars_def)
  qed
  show ?case
  proof (cases "n < 10")
    case True
    then show ?thesis using d[of n] by simp
  next
    case False
    have "n mod 10 < 10" by simp
    from d[OF this] "1.IH"[OF False] False
    show ?thesis
      by (subst (1 2) string_of_nat.simps) (simp del: string_of_nat.simps)
  qed
qed

text \<open>The regular expression of the range step.\<close>

lemma not_digit_dash: "\<not> is_digit CHR ''-''"
  by (simp add: is_digit_def digit_chars_def)

lemma takeWhile_digits:
  "list_all is_digit ds \<Longrightarrow> takeWhile is_digit (ds @ CHR ''-'' # post) = ds"
  by (induction ds) (auto simp: not_digit_dash)

lemma dropWhile_digits:
  "list_all is_digit ds \<Longrightarrow> dropWhile is_digit (ds @ CHR ''-'' # post) = CHR ''-'' # post"
  by (induction ds) (auto simp: not_digit_dash)

lemma takeWhile_all: "list_all P xs \<Longrightarrow> takeWhile P xs = xs"
  by (induction xs) auto

lemma match_here_single:
  "ds \<noteq> [] \<Longrightarrow> list_all is_digit ds \<Longrightarrow>
   match_here (''bytes='' @ ds @ ''-'' @ post) = Some (ds, takeWhile is_digit post)"
  by (simp add: match_here_def startsWith_def takeWhile_digits dropWhile_digits)

lemma range_match_single:
  "ds \<noteq> [] \<Longrightarrow> list_all is_digit ds \<Longrightarrow>
   range_match (''bytes='' @ ds @ ''-'' @ post) = Some (ds, takeWhile is_digit post)"
  using match_here_single[of ds post] by simp

lemma startsWith_append: "startsWith s p \<Longrightarrow> s = p @ drop (length p) s"
  unfolding startsWith_def by (metis append_take_drop_id)

lemma match_here_shape:
  assumes "match_here s = Some (a, b)"
  shows "\<exists>post. s = ''bytes='' @ a @ ''-'' @ post \<and> a \<noteq> [] \<and> list_all is_digit a"
proof -
  define r where "r = drop 6 s"
  define r' where "r' = dropWhile is_digit r"
  from assms have sw: "startsWith s ''bytes=''"
    by (auto simp: match_here_def split: if_splits)
  from assms sw have g: "a = takeWhile is_digit r" "a \<noteq> []" "startsWith r' ''-''"
    by (auto simp: match_here_def Let_def r_def r'_def split: if_splits)
  have len: "length ''bytes='' = 6" by simp
  have s: "s = ''bytes='' @ r"
    unfolding r_def len[symmetric] by (rule startsWith_append[OF sw])
  from startsWith_append[OF g(3)] have r': "r' = ''-'' @ drop 1 r'"
    by simp
  have "r = a @ r'"
    by (simp add: g(1) r'_def)
  with s r' have "s = ''bytes='' @ a @ ''-'' @ drop 1 r'"
    by simp
  moreover have "list_all is_digit a"
    unfolding g(1) list_all_iff by (auto dest: set_takeWhileD)
  ultimately show ?thesis using g(2) by blast
qed

lemma range_match_shape:
  "range_match s = Some (a, b) \<Longrightarrow>
   \<exists>pre post. s = pre @ ''bytes='' @ a @ ''-'' @ post \<and> a \<noteq> [] \<and> list_all is_digit a"
proof (induction s)
  case Nil
  then show ?case by simp
next
  case (Cons c cs)
  show ?case
  proof (cases "match_here (c # cs)")
    case None
    with Cons.prems have "range_match cs = Some (a, b)" by simp
    from Cons.IH[OF this] obtain pre post where
      "cs = pre @ ''bytes='' @ a @ ''-'' @ post" "a \<noteq> []" "list_all is_digit a" by blast
    then have "c # cs = (c # pre) @ ''bytes='' @ a @ ''-'' @ post \<and> a \<noteq> [] \<and> list_all is_digit a"
      by simp
    then show ?thesis by blast
  next
    case (Some m)
    with Cons.prems have "match_here (c # cs) = Some (a, b)" by simp
    from match_here_shape[OF this] obtain post where
      "c # cs = [] @ ''bytes='' @ a @ ''-'' @ post \<and> a \<noteq> [] \<and> list_all is_digit a" by auto
    then show ?thesis by blast
  qed
qed

lemma range_match_found:
  "match_here s \<noteq> None \<Longrightarrow> range_match (pre @ s) \<noteq> None"
proof (induction pre)
  case Nil
  then show ?case
    by (cases s) (auto simp: match_here_def startsWith_def)
next
  case (Cons c pre)
  then show ?case by (auto split: option.splits)
qed

lemma range_match_None_iff:
  "range_match s = None \<longleftrightarrow>
   \<not> (\<exists>pre ds post. s = pre @ ''bytes='' @ ds @ ''-'' @ post \<and> ds \<noteq> [] \<and> list_all is_digit ds)"
proof
  assume n: "range_match s = None"
  show "\<not> (\<exists>pre ds post. s = pre @ ''bytes='' @ ds @ ''-'' @ post \<and> ds \<noteq> [] \<and> list_all is_digit ds)"
  proof
    assume "\<exists>pre ds post. s = pre @ ''bytes='' @ ds @ ''-'' @ post \<and> ds \<noteq> [] \<and> list_all is_digit ds"
    then obtain pre ds post where s: "s = pre @ (''bytes='' @ ds @ ''-'' @ post)"
      and d: "ds \<noteq> []" "list_all is_digit ds" by auto
    from match_here_single[OF d, of post] have "match_here (''bytes='' @ ds @ ''-'' @ post) \<noteq> None"
      by simp
    from range_match_found[OF this, of pre] n s show False by simp
  qed
next
  assume neg: "\<not> (\<exists>pre ds post. s = pre @ ''bytes='' @ ds @ ''-'' @ post \<and> ds \<noteq> [] \<and> list_all is_digit ds)"
  show "range_match s = None"
  proof (cases "range_match s")
    case None
    then show ?thesis .
  next
    case (Some m)
    then have "range_match s = Some (fst m, snd m)" by simp
    from range_match_shape[OF this] neg show ?thesis by blast
  qed
qed


lemma handle_passed:
  assumes "files (strip_base base_path (pathname req)) = Some file"
    and "\<not> not_modified file req"
  shows "handle base_path files toUTCString setHeaders req =
     (case negotiate file (accept_encoding_of req)
             (base_headers toUTCString setHeaders file (strip_base base_path (pathname req))) of
        (serve_path, content_encoding, h) \<Rightarrow>
          (case range_of req content_encoding of
             Some (g1, g2) \<Rightarrow> Some (range_response file serve_path h g1 g2)
           | None \<Rightarrow> Some \<lparr>status = 200, headers = h, body = File_body serve_path\<rparr>))"
  using assms by (simp add: handle_def Let_def)

lemma negotiate_plain:
  "fst (snd (negotiate file ae h)) = None \<Longrightarrow>
   negotiate file ae h = (abs_path file, None, snd (snd (negotiate file ae h)))"
  by (auto simp: negotiate_def split: if_splits)

lemma slice_nth:
  "e \<le> length xs \<Longrightarrow> take (e - b) (drop b xs) = map ((!) xs) [b..<e]"
  by (auto simp: list_eq_iff_nth_eq)

lemma site_found:
  "site_index (strip_base [] (pathname (get ''/data.txt'' hs))) = Some data_txt"
  "site_index (strip_base [] (pathname (get ''/app.js'' hs))) = Some app_js"
  by (simp_all add: site_index_def strip_base_def get_def)

lemma data_txt_fields:
  "abs_path data_txt = ''/srv/data.txt''" "file_size data_txt = 13"
  "has_br data_txt = False" "has_gz data_txt = True" "mime_type data_txt = ''text/plain''"
  by (simp_all add: data_txt_def scan_entry_def)

lemma data_txt_etag: "etag data_txt = Some (''W/'' @ [CHR 0x22] @ ''13-1700000000000'' @ [CHR 0x22])"
  by (simp add: data_txt_def scan_entry_def String_of_def digit_chars_def)

text \<open>
  C1. Take an indexed file of size \<open>S\<close> and a request for it that the conditional check
  lets pass, so that the negotiation step runs, and for which that step selects no
  encoding. If its \<open>Range\<close> header is \<open>bytes=<start>-<end>\<close>, the end being optional and
  then standing for \<open>S - 1\<close>, with \<open>start \<le> end < S\<close>, the answer has status 206, the
  headers built so far with \<open>Content-Range\<close> set to \<open>bytes <start>-<end>/<S>\<close> and
  \<open>Content-Length\<close> set to \<open>end - start + 1\<close>, and as body the slice of the file from
  \<open>start\<close> up to, not including, \<open>end + 1\<close>. As long as the file on disk still has the
  indexed size, these are exactly the bytes at positions \<open>start\<close> to \<open>end\<close>, and there
  are \<open>end - start + 1\<close> of them.
\<close>

theorem satisfiable_range_partial_content:
  assumes found: "files (strip_base base_path (pathname req)) = Some file"
    and passed: "\<not> not_modified file req"
    and plain: "fst (snd (negotiate file (accept_encoding_of req)
                  (base_headers toUTCString setHeaders file (strip_base base_path (pathname req))))) = None"
    and range: "req_headers req ''range'' = Some (''bytes='' @ ds @ ''-'' @ de)"
    and digits: "ds \<noteq> []" "list_all is_digit ds" "list_all is_digit de"
    and start: "start = parseInt ds"
    and last: "end = (if de = [] then file_size file - 1 else parseInt de)"
    and bounds: "start \<le> end" "end < file_size file"
  shows "handle base_path files toUTCString setHeaders req =
           Some \<lparr>status = 206,
                 headers = (snd (snd (negotiate file (accept_encoding_of req)
                     (base_headers toUTCString setHeaders file (strip_base base_path (pathname req))))))
                   (''content-range'' \<mapsto> ''bytes '' @ String_of (int start) @ ''-'' @ String_of (int end)
                                          @ ''/'' @ String_of (int (file_size file)),
                    ''content-length'' \<mapsto> String_of (int end - int start + 1)),
                 body = File_slice (abs_path file) start (end + 1)\<rparr>
       \<and> (\<forall>fs. length (fs (abs_path file)) = file_size file \<longrightarrow>
             body_bytes fs (File_slice (abs_path file) start (end + 1))
               = map (\<lambda>i. fs (abs_path file) ! i) [start..<end + 1]
             \<and> length (body_bytes fs (File_slice (abs_path file) start (end + 1))) = end - start + 1)"
proof -
  let ?base = "base_headers toUTCString setHeaders file (strip_base base_path (pathname req))"
  define hn where "hn = snd (snd (negotiate file (accept_encoding_of req) ?base))"
  have neg: "negotiate file (accept_encoding_of req) ?base = (abs_path file, None, hn)"
    unfolding hn_def using plain by (rule negotiate_plain)
  have m: "range_of req None = Some (ds, de)"
    using range digits range_match_single[of ds de]
    by (simp add: range_of_def takeWhile_all)
  have e: "(if de \<noteq> [] then int (parseInt de) else int (file_size file) - 1) = int end"
    using last bounds by auto
  have r: "range_response file (abs_path file) hn ds de =
      \<lparr>status = 206,
       headers = hn(''content-range'' \<mapsto> ''bytes '' @ String_of (int start) @ ''-'' @ String_of (int end)
                                          @ ''/'' @ String_of (int (file_size file)),
                    ''content-length'' \<mapsto> String_of (int end - int start + 1)),
       body = File_slice (abs_path file) start (end + 1)\<rparr>"
  proof -
    have a: "\<not> (int (parseInt ds) \<ge> int (file_size file) \<or> int end \<ge> int (file_size file)
               \<or> int (parseInt ds) > int end)"
      using bounds start by simp
    have n: "nat (int (parseInt ds)) = start" "nat (int end + 1) = end + 1"
      using start by simp_all
    show ?thesis
      unfolding range_response_def e Let_def
      by (simp only: a if_False n start)
  qed
  have hh: "handle base_path files toUTCString setHeaders req = Some (range_response file (abs_path file) hn ds de)"
    by (simp add: handle_passed[where files = files, OF found passed] neg m)
  have b: "body_bytes fs (File_slice (abs_path file) start (end + 1))
               = map (\<lambda>i. fs (abs_path file) ! i) [start..<end + 1]
             \<and> length (body_bytes fs (File_slice (abs_path file) start (end + 1))) = end - start + 1"
    if len: "length (fs (abs_path file)) = file_size file" for fs :: "string \<Rightarrow> 'b list"
  proof -
    have le: "end + 1 \<le> length (fs (abs_path file))"
      using len bounds by simp
    have eq: "body_bytes fs (File_slice (abs_path file) start (end + 1))
            = map (\<lambda>i. fs (abs_path file) ! i) [start..<end + 1]"
      using slice_nth[OF le, of start] by (simp only: body_bytes.simps)
    have "length (map (\<lambda>i. fs (abs_path file) ! i) [start..<end + 1]) = end - start + 1"
      using bounds by simp
    with eq show ?thesis by (simp only:)
  qed
  have "handle base_path files toUTCString setHeaders req =
           Some \<lparr>status = 206,
                 headers = hn
                   (''content-range'' \<mapsto> ''bytes '' @ String_of (int start) @ ''-'' @ String_of (int end)
                                          @ ''/'' @ String_of (int (file_size file)),
                    ''content-length'' \<mapsto> String_of (int end - int start + 1)),
                 body = File_slice (abs_path file) start (end + 1)\<rparr>"
    by (simp only: hh r)
  with b show ?thesis unfolding hn_def by blast
qed

theorem satisfiable_range_partial_content_witness:
  "map_option status (serve (get ''/data.txt'' [(''range'', ''bytes=0-4'')])) = Some 206
   \<and> map_option (\<lambda>r. headers r ''content-range'') (serve (get ''/data.txt'' [(''range'', ''bytes=0-4'')]))
       = Some (Some ''bytes 0-4/13'')
   \<and> map_option (\<lambda>r. headers r ''content-length'') (serve (get ''/data.txt'' [(''range'', ''bytes=0-4'')]))
       = Some (Some ''5'')
   \<and> map_option body (serve (get ''/data.txt'' [(''range'', ''bytes=0-4'')]))
       = Some (File_slice ''/srv/data.txt'' 0 5)
   \<and> length (site_fs ''/srv/data.txt'') = file_size data_txt
   \<and> body_bytes site_fs (File_slice ''/srv/data.txt'' 0 5) = ''Hello''
   \<and> map (\<lambda>i. site_fs ''/srv/data.txt'' ! i) [0..<5] = ''Hello''"
proof -
  let ?req = "get ''/data.txt'' [(''range'', ''bytes=0-4'')]"
  have passed: "\<not> not_modified data_txt ?req"
    by (simp add: not_modified_def get_def data_txt_etag)
  have plain: "fst (snd (negotiate data_txt (accept_encoding_of ?req)
                  (base_headers site_date None data_txt (strip_base [] (pathname ?req))))) = None"
    by (simp add: negotiate_def accept_encoding_of_def get_def data_txt_fields)
  have range: "req_headers ?req ''range'' = Some (''bytes='' @ ''0'' @ ''-'' @ ''4'')"
    by (simp add: get_def)
  have digits: "''0'' \<noteq> []" "list_all is_digit ''0''" "list_all is_digit ''4''"
    by (simp_all add: is_digit_def digit_chars_def)
  have nums: "0 = parseInt ''0''" "4 = (if ''4'' = [] then file_size data_txt - 1 else parseInt ''4'')"
    by (simp_all add: parseInt_def digit_value_def)
  have bounds: "(0::nat) \<le> 4" "4 < file_size data_txt"
    by (simp_all add: data_txt_fields)
  have len: "length (site_fs ''/srv/data.txt'') = file_size data_txt"
    by (simp add: site_fs_def data_txt_fields)
  have bytes: "body_bytes site_fs (File_slice ''/srv/data.txt'' 0 5) = ''Hello''"
    by (simp add: site_fs_def)
  note T = satisfiable_range_partial_content
    [where files = site_index and base_path = "[]" and toUTCString = site_date
       and setHeaders = None,
     OF site_found(1) passed plain range digits nums bounds]
  have "length (site_fs (abs_path data_txt)) = file_size data_txt"
    using len by (simp add: data_txt_fields)
  with T have "body_bytes site_fs (File_slice (abs_path data_txt) 0 (4 + 1))
             = map (\<lambda>i. site_fs (abs_path data_txt) ! i) [0..<4 + 1]"
    by blast
  with bytes have m: "map (\<lambda>i. site_fs ''/srv/data.txt'' ! i) [0..<5] = ''Hello''"
    by (simp add: data_txt_fields)
  show ?thesis
    unfolding serve_def T[THEN conjunct1]
    using len bytes m
    by (simp add: data_txt_fields String_of_def digit_chars_def)
qed

text \<open>
  C5. Take an indexed file of size \<open>S\<close> and a request for it that the conditional check
  lets pass and for which negotiation selects no encoding. If its \<open>Range\<close> header is
  \<open>bytes=<start>-<end>\<close> (the end optional, then \<open>S - 1\<close>) and \<open>start \<ge> S\<close> or
  \<open>end \<ge> S\<close> or \<open>start > end\<close>, the answer has status 416, the single header
  \<open>Content-Range: bytes */<S>\<close> and no body.
\<close>

theorem unsatisfiable_range_rejected:
  assumes found: "files (strip_base base_path (pathname req)) = Some file"
    and passed: "\<not> not_modified file req"
    and plain: "fst (snd (negotiate file (accept_encoding_of req)
                  (base_headers toUTCString setHeaders file (strip_base base_path (pathname req))))) = None"
    and range: "req_headers req ''range'' = Some (''bytes='' @ ds @ ''-'' @ de)"
    and digits: "ds \<noteq> []" "list_all is_digit ds" "list_all is_digit de"
    and start: "start = int (parseInt ds)"
    and last: "end = (if de = [] then int (file_size file) - 1 else int (parseInt de))"
    and bad: "start \<ge> int (file_size file) \<or> end \<ge> int (file_size file) \<or> start > end"
  shows "handle base_path files toUTCString setHeaders req =
           Some \<lparr>status = 416,
                 headers = [''content-range'' \<mapsto> ''bytes */'' @ String_of (int (file_size file))],
                 body = No_body\<rparr>"
proof -
  let ?base = "base_headers toUTCString setHeaders file (strip_base base_path (pathname req))"
  define hn where "hn = snd (snd (negotiate file (accept_encoding_of req) ?base))"
  have neg: "negotiate file (accept_encoding_of req) ?base = (abs_path file, None, hn)"
    unfolding hn_def using plain by (rule negotiate_plain)
  have m: "range_of req None = Some (ds, de)"
    using range digits range_match_single[of ds de]
    by (simp add: range_of_def takeWhile_all)
  have e: "(if de \<noteq> [] then int (parseInt de) else int (file_size file) - 1) = end"
    using last by auto
  have r: "range_response file (abs_path file) hn ds de =
      \<lparr>status = 416,
       headers = [''content-range'' \<mapsto> ''bytes */'' @ String_of (int (file_size file))],
       body = No_body\<rparr>"
    unfolding range_response_def e Let_def using bad start by auto
  show ?thesis
    by (simp add: handle_passed[where files = files, OF found passed] neg m r)
qed

theorem unsatisfiable_range_rejected_witness:
  "serve (get ''/data.txt'' [(''range'', ''bytes=100-200'')]) =
     Some \<lparr>status = 416, headers = [''content-range'' \<mapsto> ''bytes */13''], body = No_body\<rparr>
   \<and> body_bytes site_fs No_body = []"
proof -
  let ?req = "get ''/data.txt'' [(''range'', ''bytes=100-200'')]"
  have passed: "\<not> not_modified data_txt ?req"
    by (simp add: not_modified_def get_def data_txt_etag)
  have plain: "fst (snd (negotiate data_txt (accept_encoding_of ?req)
                  (base_headers site_date None data_txt (strip_base [] (pathname ?req))))) = None"
    by (simp add: negotiate_def accept_encoding_of_def get_def data_txt_fields)
  have range: "req_headers ?req ''range'' = Some (''bytes='' @ ''100'' @ ''-'' @ ''200'')"
    by (simp add: get_def)
  have digits: "''100'' \<noteq> []" "list_all is_digit ''100''" "list_all is_digit ''200''"
    by (simp_all add: is_digit_def digit_chars_def)
  have nums: "100 = int (parseInt ''100'')"
    "200 = (if ''200'' = [] then int (file_size data_txt) - 1 else int (parseInt ''200''))"
    by (simp_all add: parseInt_def digit_value_def)
  have bad: "(100::int) \<ge> int (file_size data_txt) \<or> (200::int) \<ge> int (file_size data_txt)
             \<or> (100::int) > 200"
    by (simp add: data_txt_fields)
  note T = unsatisfiable_range_rejected
    [where files = site_index and base_path = "[]" and toUTCString = site_date
       and setHeaders = None,
     OF site_found(1) passed plain range digits nums bad]
  show ?thesis
    unfolding serve_def T
    by (simp add: data_txt_fields String_of_def digit_chars_def)
qed

lemma scan_entry_validator:
  "\<exists>e. etag (scan_entry True show_number path sz mt ty br gz) = Some e \<and> e \<noteq> []"
  by (simp add: scan_entry_def)

text \<open>
  C3. For an indexed file with validators enabled, whose entry therefore stores a
  non-empty weak validator, a request whose \<open>If-None-Match\<close> header equals that validator
  exactly is answered with status 304, the base headers and no body. Nothing else of
  the request is looked at: any request for the same path with the same
  \<open>If-None-Match\<close> gets the same answer, whatever its \<open>Accept-Encoding\<close> and \<open>Range\<close>.
  Without a \<open>setHeaders\<close> callback the headers are \<open>Content-Type\<close>, \<open>Content-Length\<close> of
  the unencoded file, \<open>Last-Modified\<close> and \<open>ETag\<close>, and no others.
\<close>

theorem matching_validator_not_modified:
  assumes found: "files (strip_base base_path (pathname req)) = Some file"
    and enabled: "etag file = Some e" "e \<noteq> []"
    and inm: "req_headers req ''if-none-match'' = Some e"
  shows "handle base_path files toUTCString setHeaders req =
           Some \<lparr>status = 304,
                 headers = base_headers toUTCString setHeaders file (strip_base base_path (pathname req)),
                 body = No_body\<rparr>
       \<and> (\<forall>req'. pathname req' = pathname req \<and> req_headers req' ''if-none-match'' = Some e \<longrightarrow>
             handle base_path files toUTCString setHeaders req'
               = handle base_path files toUTCString setHeaders req)
       \<and> (setHeaders = None \<longrightarrow>
             base_headers toUTCString setHeaders file (strip_base base_path (pathname req)) =
               [''content-type'' \<mapsto> mime_type file,
                ''content-length'' \<mapsto> String_of (int (file_size file)),
                ''last-modified'' \<mapsto> toUTCString (mtime file),
                ''etag'' \<mapsto> e])"
proof -
  have nm: "not_modified file r" if "req_headers r ''if-none-match'' = Some e" for r
    using that enabled by (simp add: not_modified_def)
  have a: "handle base_path files toUTCString setHeaders r =
           Some \<lparr>status = 304,
                 headers = base_headers toUTCString setHeaders file (strip_base base_path (pathname req)),
                 body = No_body\<rparr>"
    if "pathname r = pathname req" "req_headers r ''if-none-match'' = Some e" for r
    using that found nm[of r] by (simp add: handle_def Let_def)
  have b: "setHeaders = None \<longrightarrow>
             base_headers toUTCString setHeaders file (strip_base base_path (pathname req)) =
               [''content-type'' \<mapsto> mime_type file,
                ''content-length'' \<mapsto> String_of (int (file_size file)),
                ''last-modified'' \<mapsto> toUTCString (mtime file),
                ''etag'' \<mapsto> e]"
    using enabled by (simp add: base_headers_def Let_def)
  from a[of req] a inm b show ?thesis by simp
qed

theorem matching_validator_not_modified_witness:
  "etag data_txt = Some (''W/'' @ [CHR 0x22] @ ''13-1700000000000'' @ [CHR 0x22])
   \<and> serve (get ''/data.txt'' [(''if-none-match'', ''W/'' @ [CHR 0x22] @ ''13-1700000000000'' @ [CHR 0x22]),
                               (''accept-encoding'', ''gzip''), (''range'', ''bytes=0-4'')]) =
     Some \<lparr>status = 304,
           headers = [''content-type'' \<mapsto> ''text/plain'',
                      ''content-length'' \<mapsto> ''13'',
                      ''last-modified'' \<mapsto> ''Tue, 14 Nov 2023 22:13:20 GMT'',
                      ''etag'' \<mapsto> ''W/'' @ [CHR 0x22] @ ''13-1700000000000'' @ [CHR 0x22]],
           body = No_body\<rparr>
   \<and> serve (get ''/data.txt'' [(''if-none-match'', ''W/'' @ [CHR 0x22] @ ''13-1700000000000'' @ [CHR 0x22])])
     = serve (get ''/data.txt'' [(''if-none-match'', ''W/'' @ [CHR 0x22] @ ''13-1700000000000'' @ [CHR 0x22]),
                               (''accept-encoding'', ''gzip''), (''range'', ''bytes=0-4'')])"
proof -
  let ?e = "''W/'' @ [CHR 0x22] @ ''13-1700000000000'' @ [CHR 0x22]"
  let ?req = "get ''/data.txt'' [(''if-none-match'', ?e), (''accept-encoding'', ''gzip''), (''range'', ''bytes=0-4'')]"
  let ?req' = "get ''/data.txt'' [(''if-none-match'', ?e)]"
  have ne: "?e \<noteq> []" by simp
  have inm: "req_headers ?req ''if-none-match'' = Some ?e"
    by (simp add: get_def)
  note T = matching_validator_not_modified
    [where files = site_index and base_path = "[]" and toUTCString = site_date
       and setHeaders = None, OF site_found(1) data_txt_etag ne inm]
  have same: "pathname ?req' = pathname ?req \<and> req_headers ?req' ''if-none-match'' = Some ?e"
    by (simp add: get_def)
  from T same have eq: "handle [] site_index site_date None ?req' = handle [] site_index site_date None ?req"
    by blast
  from T have h: "base_headers site_date None data_txt (strip_base [] (pathname ?req)) =
               [''content-type'' \<mapsto> mime_type data_txt,
                ''content-length'' \<mapsto> String_of (int (file_size data_txt)),
                ''last-modified'' \<mapsto> site_date (mtime data_txt),
                ''etag'' \<mapsto> ?e]"
    by blast
  show ?thesis
    unfolding serve_def eq T[THEN conjunct1] h
    by (simp add: data_txt_etag data_txt_fields String_of_def digit_chars_def site_date_def)
qed


lemma app_js_fields:
  "abs_path app_js = ''/srv/app.js''" "file_size app_js = 2048"
  "has_br app_js = True" "has_gz app_js = True" "mime_type app_js = ''application/javascript''"
  by (simp_all add: app_js_def scan_entry_def)

lemma app_js_etag: "etag app_js = Some (''W/'' @ [CHR 0x22] @ ''2048-1700000000000'' @ [CHR 0x22])"
  by (simp add: app_js_def scan_entry_def String_of_def digit_chars_def)

lemma not_modified_range_free:
  "not_modified file (req\<lparr>req_headers := (req_headers req)(''range'' := None)\<rparr>) = not_modified file req"
  by (cases "etag file") (simp_all add: not_modified_def)

text \<open>
  C8, as the code has it. The pattern is searched anywhere in the \<open>Range\<close> header. When
  the header of a request that the conditional check lets pass contains no occurrence
  of \<open>bytes=\<close>, one or more digits and \<open>-\<close>, the request is answered as if it had no
  \<open>Range\<close> header at all: status 200, the headers of the negotiation step, and the whole
  of the file that step selected as body.
\<close>

theorem unmatched_range_ignored:
  assumes found: "files (strip_base base_path (pathname req)) = Some file"
    and passed: "\<not> not_modified file req"
    and range: "req_headers req ''range'' = Some range_header"
    and nomatch: "\<not> (\<exists>pre ds post. range_header = pre @ ''bytes='' @ ds @ ''-'' @ post
                       \<and> ds \<noteq> [] \<and> list_all is_digit ds)"
  shows "handle base_path files toUTCString setHeaders req =
           Some \<lparr>status = 200,
                 headers = snd (snd (negotiate file (accept_encoding_of req)
                     (base_headers toUTCString setHeaders file (strip_base base_path (pathname req))))),
                 body = File_body (fst (negotiate file (accept_encoding_of req)
                     (base_headers toUTCString setHeaders file (strip_base base_path (pathname req)))))\<rparr>
       \<and> handle base_path files toUTCString setHeaders req =
           handle base_path files toUTCString setHeaders
             (req\<lparr>req_headers := (req_headers req)(''range'' := None)\<rparr>)"
proof -
  let ?req' = "req\<lparr>req_headers := (req_headers req)(''range'' := None)\<rparr>"
  have n: "range_match range_header = None"
    using nomatch range_match_None_iff[of range_header] by blast
  have r: "range_of req ce = None" for ce
    using range n by (simp add: range_of_def)
  have r': "range_of ?req' ce = None" for ce
    by (simp add: range_of_def)
  have ae: "accept_encoding_of ?req' = accept_encoding_of req"
    by (simp add: accept_encoding_of_def)
  have found': "files (strip_base base_path (pathname ?req')) = Some file"
    using found by simp
  have passed': "\<not> not_modified file ?req'"
    using passed by (simp add: not_modified_range_free)
  have a: "handle base_path files toUTCString setHeaders req =
           Some \<lparr>status = 200,
                 headers = snd (snd (negotiate file (accept_encoding_of req)
                     (base_headers toUTCString setHeaders file (strip_base base_path (pathname req))))),
                 body = File_body (fst (negotiate file (accept_encoding_of req)
                     (base_headers toUTCString setHeaders file (strip_base base_path (pathname req)))))\<rparr>"
    by (simp add: handle_passed[where files = files, OF found passed] r split: prod.splits)
  have b: "handle base_path files toUTCString setHeaders ?req' =
           Some \<lparr>status = 200,
                 headers = snd (snd (negotiate file (accept_encoding_of req)
                     (base_headers toUTCString setHeaders file (strip_base base_path (pathname req))))),
                 body = File_body (fst (negotiate file (accept_encoding_of req)
                     (base_headers toUTCString setHeaders file (strip_base base_path (pathname req)))))\<rparr>"
    by (simp add: handle_passed[where files = files, OF found' passed'] r' ae split: prod.splits)
  from a b show ?thesis by simp
qed

theorem unmatched_range_ignored_witness:
  "range_match ''bytes=-5'' = None
   \<and> serve (get ''/data.txt'' [(''range'', ''bytes=-5'')]) =
       Some \<lparr>status = 200,
             headers = [''content-type'' \<mapsto> ''text/plain'',
                        ''content-length'' \<mapsto> ''13'',
                        ''last-modified'' \<mapsto> ''Tue, 14 Nov 2023 22:13:20 GMT'',
                        ''etag'' \<mapsto> ''W/'' @ [CHR 0x22] @ ''13-1700000000000'' @ [CHR 0x22],
                        ''vary'' \<mapsto> ''Accept-Encoding''],
             body = File_body ''/srv/data.txt''\<rparr>
   \<and> body_bytes site_fs (File_body ''/srv/data.txt'') = ''Hello, World!''"
proof -
  let ?req = "get ''/data.txt'' [(''range'', ''bytes=-5'')]"
  have passed: "\<not> not_modified data_txt ?req"
    by (simp add: not_modified_def get_def data_txt_etag)
  have range: "req_headers ?req ''range'' = Some ''bytes=-5''"
    by (simp add: get_def)
  have n: "range_match ''bytes=-5'' = None"
    by (simp add: match_here_def startsWith_def is_digit_def digit_chars_def)
  have nomatch: "\<not> (\<exists>pre ds post. ''bytes=-5'' = pre @ ''bytes='' @ ds @ ''-'' @ post
                       \<and> ds \<noteq> [] \<and> list_all is_digit ds)"
    using n range_match_None_iff[of "''bytes=-5''"] by blast
  note T = unmatched_range_ignored
    [where files = site_index and base_path = "[]" and toUTCString = site_date
       and setHeaders = None, OF site_found(1) passed range nomatch]
  have h: "snd (snd (negotiate data_txt (accept_encoding_of ?req)
                     (base_headers site_date None data_txt (strip_base [] (pathname ?req))))) =
           [''content-type'' \<mapsto> ''text/plain'',
                        ''content-length'' \<mapsto> ''13'',
                        ''last-modified'' \<mapsto> ''Tue, 14 Nov 2023 22:13:20 GMT'',
                        ''etag'' \<mapsto> ''W/'' @ [CHR 0x22] @ ''13-1700000000000'' @ [CHR 0x22],
                        ''vary'' \<mapsto> ''Accept-Encoding'']"
    by (simp add: negotiate_def accept_encoding_of_def get_def data_txt_fields data_txt_etag
        base_headers_def site_date_def String_of_def digit_chars_def)
  have p: "fst (negotiate data_txt (accept_encoding_of ?req)
                     (base_headers site_date None data_txt (strip_base [] (pathname ?req)))) = ''/srv/data.txt''"
    by (simp add: negotiate_def accept_encoding_of_def get_def data_txt_fields)
  show ?thesis
    unfolding serve_def T[THEN conjunct1] h p
    using n by (simp add: site_fs_def)
qed

text \<open>
  A multi-range header does contain the pattern: \<open>bytes=0-4,10-14\<close> on the thirteen
  bytes of \<open>data.txt\<close> is answered 206 with the first range only, not 200 with the full
  body.
\<close>

theorem multi_range_counterexample:
  "map_option status (serve (get ''/data.txt'' [(''range'', ''bytes=0-4,10-14'')])) = Some 206
   \<and> map_option (\<lambda>r. headers r ''content-range'') (serve (get ''/data.txt'' [(''range'', ''bytes=0-4,10-14'')]))
       = Some (Some ''bytes 0-4/13'')
   \<and> map_option (\<lambda>r. body_bytes site_fs (body r)) (serve (get ''/data.txt'' [(''range'', ''bytes=0-4,10-14'')]))
       = Some ''Hello''
   \<and> map_option status (serve (get ''/data.txt'' [(''range'', ''bytes=0-4,10-14'')])) \<noteq> Some 200
   \<and> map_option (\<lambda>r. body_bytes site_fs (body r)) (serve (get ''/data.txt'' [(''range'', ''bytes=0-4,10-14'')]))
       \<noteq> Some (site_fs ''/srv/data.txt'')"
proof -
  have m: "range_match ''bytes=0-4,10-14'' = Some (''0'', ''4'')"
    by (simp add: match_here_def startsWith_def is_digit_def digit_chars_def)
  have r: "range_of (get ''/data.txt'' [(''range'', ''bytes=0-4,10-14'')]) None = Some (''0'', ''4'')"
    by (simp add: range_of_def get_def m del: range_match.simps)
  have n: "negotiate data_txt [] h = (''/srv/data.txt'', None, h(''vary'' \<mapsto> ''Accept-Encoding''))" for h
    by (simp add: negotiate_def data_txt_fields)
  have s: "serve (get ''/data.txt'' [(''range'', ''bytes=0-4,10-14'')]) =
      Some (range_response data_txt ''/srv/data.txt''
             ((base_headers site_date None data_txt ''/data.txt'')(''vary'' \<mapsto> ''Accept-Encoding''))
             ''0'' ''4'')"
    using r
    by (simp add: serve_def handle_def Let_def site_index_def strip_base_def not_modified_def
        data_txt_etag accept_encoding_of_def n get_def)
  show ?thesis
    unfolding s
    by (simp add: range_response_def Let_def parseInt_def digit_value_def data_txt_fields
        String_of_def digit_chars_def site_fs_def)
qed

text \<open>
  C4, as the code has it. Take an indexed file and a request for it that the
  conditional check lets pass, so that the negotiation step runs; \<open>h\<close> are the base
  headers and "includes" is the substring test. If \<open>Accept-Encoding\<close> includes \<open>br\<close> and
  the \<open>.br\<close> sibling exists, the answer is 200 with the whole sibling as body,
  \<open>Content-Encoding: br\<close>, \<open>Vary: Accept-Encoding\<close> and no \<open>Content-Length\<close>, whatever
  the \<open>Range\<close> header says; brotli wins when gzip would be acceptable too. Else, if it
  includes \<open>gzip\<close> and the \<open>.gz\<close> sibling exists, the same holds with \<open>gzip\<close>. Else, if
  a sibling exists, the original is served with \<open>Vary: Accept-Encoding\<close> added: in full
  with status 200 when there is no range to handle, and otherwise by the range step on
  the original, whose 206 answer carries the \<open>Vary\<close> header and a slice of the original,
  while its 416 answer has a header object of its own.
\<close>

theorem negotiation_prefers_brotli:
  assumes found: "files (strip_base base_path (pathname req)) = Some file"
    and passed: "\<not> not_modified file req"
    and base: "h = base_headers toUTCString setHeaders file (strip_base base_path (pathname req))"
    and ae: "accept_encoding = accept_encoding_of req"
  shows "(has_br file \<and> str_includes accept_encoding ''br'' \<longrightarrow>
            handle base_path files toUTCString setHeaders req =
              Some \<lparr>status = 200,
                    headers = (h(''content-encoding'' \<mapsto> ''br'', ''vary'' \<mapsto> ''Accept-Encoding''))
                                (''content-length'' := None),
                    body = File_body (abs_path file @ ''.br'')\<rparr>)
       \<and> (\<not> (has_br file \<and> str_includes accept_encoding ''br'')
            \<and> has_gz file \<and> str_includes accept_encoding ''gzip'' \<longrightarrow>
            handle base_path files toUTCString setHeaders req =
              Some \<lparr>status = 200,
                    headers = (h(''content-encoding'' \<mapsto> ''gzip'', ''vary'' \<mapsto> ''Accept-Encoding''))
                                (''content-length'' := None),
                    body = File_body (abs_path file @ ''.gz'')\<rparr>)
       \<and> (\<not> (has_br file \<and> str_includes accept_encoding ''br'')
            \<and> \<not> (has_gz file \<and> str_includes accept_encoding ''gzip'')
            \<and> (has_br file \<or> has_gz file) \<longrightarrow>
            (range_of req None = None \<longrightarrow>
               handle base_path files toUTCString setHeaders req =
                 Some \<lparr>status = 200, headers = h(''vary'' \<mapsto> ''Accept-Encoding''),
                       body = File_body (abs_path file)\<rparr>)
            \<and> (\<forall>g1 g2. range_of req None = Some (g1, g2) \<longrightarrow>
                 handle base_path files toUTCString setHeaders req =
                   Some (range_response file (abs_path file) (h(''vary'' \<mapsto> ''Accept-Encoding'')) g1 g2)
                 \<and> (status (range_response file (abs_path file) (h(''vary'' \<mapsto> ''Accept-Encoding'')) g1 g2) = 416
                    \<or> status (range_response file (abs_path file) (h(''vary'' \<mapsto> ''Accept-Encoding'')) g1 g2) = 206
                      \<and> headers (range_response file (abs_path file) (h(''vary'' \<mapsto> ''Accept-Encoding'')) g1 g2) ''vary''
                          = Some ''Accept-Encoding''
                      \<and> (\<exists>b e. body (range_response file (abs_path file) (h(''vary'' \<mapsto> ''Accept-Encoding'')) g1 g2)
                          = File_slice (abs_path file) b e))))"
proof -
  note hp = handle_passed[where files = files, OF found passed]
  have br: "has_br file \<and> str_includes accept_encoding ''br'' \<Longrightarrow>
            handle base_path files toUTCString setHeaders req =
              Some \<lparr>status = 200,
                    headers = (h(''content-encoding'' \<mapsto> ''br'', ''vary'' \<mapsto> ''Accept-Encoding''))
                                (''content-length'' := None),
                    body = File_body (abs_path file @ ''.br'')\<rparr>"
    unfolding base ae by (simp add: hp negotiate_def range_of_def split: option.splits)
  have gz: "\<not> (has_br file \<and> str_includes accept_encoding ''br'')
            \<and> has_gz file \<and> str_includes accept_encoding ''gzip'' \<Longrightarrow>
            handle base_path files toUTCString setHeaders req =
              Some \<lparr>status = 200,
                    headers = (h(''content-encoding'' \<mapsto> ''gzip'', ''vary'' \<mapsto> ''Accept-Encoding''))
                                (''content-length'' := None),
                    body = File_body (abs_path file @ ''.gz'')\<rparr>"
    unfolding base ae by (simp add: hp negotiate_def range_of_def split: option.splits)
  have n: "negotiate file accept_encoding h = (abs_path file, None, h(''vary'' \<mapsto> ''Accept-Encoding''))"
    if "\<not> (has_br file \<and> str_includes accept_encoding ''br'')"
       "\<not> (has_gz file \<and> str_includes accept_encoding ''gzip'')" "has_br file \<or> has_gz file"
    using that by (auto simp: negotiate_def)
  have rr: "status (range_response file p hh g1 g2) = 416
            \<or> status (range_response file p hh g1 g2) = 206
              \<and> headers (range_response file p hh g1 g2) ''vary'' = hh ''vary''
              \<and> (\<exists>b e. body (range_response file p hh g1 g2) = File_slice p b e)" for p hh g1 g2
    by (simp add: range_response_def Let_def)
  have plain: "(range_of req None = None \<longrightarrow>
               handle base_path files toUTCString setHeaders req =
                 Some \<lparr>status = 200, headers = h(''vary'' \<mapsto> ''Accept-Encoding''),
                       body = File_body (abs_path file)\<rparr>)
            \<and> (\<forall>g1 g2. range_of req None = Some (g1, g2) \<longrightarrow>
                 handle base_path files toUTCString setHeaders req =
                   Some (range_response file (abs_path file) (h(''vary'' \<mapsto> ''Accept-Encoding'')) g1 g2)
                 \<and> (status (range_response file (abs_path file) (h(''vary'' \<mapsto> ''Accept-Encoding'')) g1 g2) = 416
                    \<or> status (range_response file (abs_path file) (h(''vary'' \<mapsto> ''Accept-Encoding'')) g1 g2) = 206
                      \<and> headers (range_response file (abs_path file) (h(''vary'' \<mapsto> ''Accept-Encoding'')) g1 g2) ''vary''
                          = Some ''Accept-Encoding''
                      \<and> (\<exists>b e. body (range_response file (abs_path file) (h(''vary'' \<mapsto> ''Accept-Encoding'')) g1 g2)
                          = File_slice (abs_path file) b e)))"
    if "\<not> (has_br file \<and> str_includes accept_encoding ''br'')"
       "\<not> (has_gz file \<and> str_includes accept_encoding ''gzip'')" "has_br file \<or> has_gz file"
    using rr[of "abs_path file" "h(''vary'' \<mapsto> ''Accept-Encoding'')"] n[OF that]
    unfolding base ae by (simp add: hp)
  from br gz plain show ?thesis by blast
qed


theorem negotiation_prefers_brotli_witness:
  "has_br app_js \<and> has_gz app_js \<and> str_includes ''gzip, deflate, br'' ''br''
   \<and> str_includes ''gzip, deflate, br'' ''gzip''
   \<and> serve (get ''/app.js'' [(''accept-encoding'', ''gzip, deflate, br''), (''range'', ''bytes=0-4'')]) =
       Some \<lparr>status = 200,
             headers = [''content-type'' \<mapsto> ''application/javascript'',
                        ''last-modified'' \<mapsto> ''Tue, 14 Nov 2023 22:13:20 GMT'',
                        ''etag'' \<mapsto> ''W/'' @ [CHR 0x22] @ ''2048-1700000000000'' @ [CHR 0x22],
                        ''content-encoding'' \<mapsto> ''br'',
                        ''vary'' \<mapsto> ''Accept-Encoding''],
             body = File_body ''/srv/app.js.br''\<rparr>
   \<and> \<not> has_br data_txt \<and> has_gz data_txt \<and> str_includes ''gzip'' ''gzip''
   \<and> serve (get ''/data.txt'' [(''accept-encoding'', ''gzip'')]) =
       Some \<lparr>status = 200,
             headers = [''content-type'' \<mapsto> ''text/plain'',
                        ''last-modified'' \<mapsto> ''Tue, 14 Nov 2023 22:13:20 GMT'',
                        ''etag'' \<mapsto> ''W/'' @ [CHR 0x22] @ ''13-1700000000000'' @ [CHR 0x22],
                        ''content-encoding'' \<mapsto> ''gzip'',
                        ''vary'' \<mapsto> ''Accept-Encoding''],
             body = File_body ''/srv/data.txt.gz''\<rparr>
   \<and> \<not> str_includes ''identity'' ''gzip''
   \<and> serve (get ''/data.txt'' [(''accept-encoding'', ''identity'')]) =
       Some \<lparr>status = 200,
             headers = [''content-type'' \<mapsto> ''text/plain'',
                        ''content-length'' \<mapsto> ''13'',
                        ''last-modified'' \<mapsto> ''Tue, 14 Nov 2023 22:13:20 GMT'',
                        ''etag'' \<mapsto> ''W/'' @ [CHR 0x22] @ ''13-1700000000000'' @ [CHR 0x22],
                        ''vary'' \<mapsto> ''Accept-Encoding''],
             body = File_body ''/srv/data.txt''\<rparr>
   \<and> map_option status (serve (get ''/data.txt'' [(''accept-encoding'', ''identity''), (''range'', ''bytes=7-'')]))
       = Some 206
   \<and> map_option (\<lambda>r. headers r ''vary'')
         (serve (get ''/data.txt'' [(''accept-encoding'', ''identity''), (''range'', ''bytes=7-'')]))
       = Some (Some ''Accept-Encoding'')
   \<and> map_option (\<lambda>r. body_bytes site_fs (body r))
         (serve (get ''/data.txt'' [(''accept-encoding'', ''identity''), (''range'', ''bytes=7-'')]))
       = Some ''World!''"
proof -
  let ?r1 = "get ''/app.js'' [(''accept-encoding'', ''gzip, deflate, br''), (''range'', ''bytes=0-4'')]"
  let ?r2 = "get ''/data.txt'' [(''accept-encoding'', ''gzip'')]"
  let ?r3 = "get ''/data.txt'' [(''accept-encoding'', ''identity'')]"
  let ?r4 = "get ''/data.txt'' [(''accept-encoding'', ''identity''), (''range'', ''bytes=7-'')]"
  have inc: "str_includes ''gzip, deflate, br'' ''br''" "str_includes ''gzip, deflate, br'' ''gzip''"
    "str_includes ''gzip'' ''gzip''" "\<not> str_includes ''identity'' ''gzip''"
    "\<not> str_includes ''identity'' ''br''"
    by (simp_all add: startsWith_def)
  have ae: "accept_encoding_of ?r1 = ''gzip, deflate, br''" "accept_encoding_of ?r2 = ''gzip''"
    "accept_encoding_of ?r3 = ''identity''" "accept_encoding_of ?r4 = ''identity''"
    by (simp_all add: accept_encoding_of_def get_def)
  have passed: "\<not> not_modified app_js ?r1" "\<not> not_modified data_txt ?r2"
    "\<not> not_modified data_txt ?r3" "\<not> not_modified data_txt ?r4"
    by (simp_all add: not_modified_def get_def data_txt_etag app_js_etag)
  have ranges: "range_of ?r3 None = None" "range_of ?r4 None = Some (''7'', [])"
    by (simp_all add: range_of_def get_def match_here_def startsWith_def is_digit_def digit_chars_def)
  have hs: "base_headers site_date None app_js (strip_base [] (pathname ?r1)) =
              [''content-type'' \<mapsto> ''application/javascript'', ''content-length'' \<mapsto> ''2048'',
               ''last-modified'' \<mapsto> ''Tue, 14 Nov 2023 22:13:20 GMT'',
               ''etag'' \<mapsto> ''W/'' @ [CHR 0x22] @ ''2048-1700000000000'' @ [CHR 0x22]]"
      "base_headers site_date None data_txt p =
              [''content-type'' \<mapsto> ''text/plain'', ''content-length'' \<mapsto> ''13'',
               ''last-modified'' \<mapsto> ''Tue, 14 Nov 2023 22:13:20 GMT'',
               ''etag'' \<mapsto> ''W/'' @ [CHR 0x22] @ ''13-1700000000000'' @ [CHR 0x22]]" for p
    by (simp_all add: base_headers_def app_js_fields app_js_etag data_txt_fields data_txt_etag
        site_date_def String_of_def digit_chars_def)
  note T1 = negotiation_prefers_brotli
    [where files = site_index and base_path = "[]" and toUTCString = site_date and setHeaders = None,
     OF site_found(2) passed(1) refl refl]
  note T2 = negotiation_prefers_brotli
    [where files = site_index and base_path = "[]" and toUTCString = site_date and setHeaders = None,
     OF site_found(1) passed(2) refl refl]
  note T3 = negotiation_prefers_brotli
    [where files = site_index and base_path = "[]" and toUTCString = site_date and setHeaders = None,
     OF site_found(1) passed(3) refl refl]
  note T4 = negotiation_prefers_brotli
    [where files = site_index and base_path = "[]" and toUTCString = site_date and setHeaders = None,
     OF site_found(1) passed(4) refl refl]
  have e1: "serve ?r1 = Some \<lparr>status = 200,
             headers = [''content-type'' \<mapsto> ''application/javascript'',
                        ''last-modified'' \<mapsto> ''Tue, 14 Nov 2023 22:13:20 GMT'',
                        ''etag'' \<mapsto> ''W/'' @ [CHR 0x22] @ ''2048-1700000000000'' @ [CHR 0x22],
                        ''content-encoding'' \<mapsto> ''br'',
                        ''vary'' \<mapsto> ''Accept-Encoding''],
             body = File_body ''/srv/app.js.br''\<rparr>"
    using T1 inc unfolding serve_def ae hs
    by (auto simp: app_js_fields fun_upd_twist)
  have e2: "serve ?r2 = Some \<lparr>status = 200,
             headers = [''content-type'' \<mapsto> ''text/plain'',
                        ''last-modified'' \<mapsto> ''Tue, 14 Nov 2023 22:13:20 GMT'',
                        ''etag'' \<mapsto> ''W/'' @ [CHR 0x22] @ ''13-1700000000000'' @ [CHR 0x22],
                        ''content-encoding'' \<mapsto> ''gzip'',
                        ''vary'' \<mapsto> ''Accept-Encoding''],
             body = File_body ''/srv/data.txt.gz''\<rparr>"
    using T2 inc unfolding serve_def ae hs
    by (auto simp: data_txt_fields fun_upd_twist)
  have e3: "serve ?r3 = Some \<lparr>status = 200,
             headers = [''content-type'' \<mapsto> ''text/plain'',
                        ''content-length'' \<mapsto> ''13'',
                        ''last-modified'' \<mapsto> ''Tue, 14 Nov 2023 22:13:20 GMT'',
                        ''etag'' \<mapsto> ''W/'' @ [CHR 0x22] @ ''13-1700000000000'' @ [CHR 0x22],
                        ''vary'' \<mapsto> ''Accept-Encoding''],
             body = File_body ''/srv/data.txt''\<rparr>"
    using T3 inc ranges unfolding serve_def ae hs
    by (auto simp: data_txt_fields)
  have e4: "serve ?r4 = Some (range_response data_txt ''/srv/data.txt''
              ([''content-type'' \<mapsto> ''text/plain'',
                        ''content-length'' \<mapsto> ''13'',
                        ''last-modified'' \<mapsto> ''Tue, 14 Nov 2023 22:13:20 GMT'',
                        ''etag'' \<mapsto> ''W/'' @ [CHR 0x22] @ ''13-1700000000000'' @ [CHR 0x22],
                        ''vary'' \<mapsto> ''Accept-Encoding'']) ''7'' [])"
    using T4 inc ranges unfolding serve_def ae hs
    by (auto simp: data_txt_fields)
  have e4': "map_option status (serve ?r4) = Some 206"
    "map_option (\<lambda>r. headers r ''vary'') (serve ?r4) = Some (Some ''Accept-Encoding'')"
    "map_option (\<lambda>r. body_bytes site_fs (body r)) (serve ?r4) = Some ''World!''"
    unfolding e4
    by (simp_all add: range_response_def Let_def parseInt_def digit_value_def data_txt_fields
        site_fs_def)
  show ?thesis
    using inc e1 e2 e3 e4' by (simp add: app_js_fields data_txt_fields)
qed

text \<open>
  The 416 answer does not carry \<open>Vary\<close>: \<open>data.txt\<close> has a gzip sibling, the client
  accepts neither encoding, and the range lies beyond the thirteen bytes.
\<close>

theorem unsatisfiable_range_drops_vary_counterexample:
  "has_gz data_txt \<and> \<not> has_br data_txt
   \<and> serve (get ''/data.txt'' [(''accept-encoding'', ''identity''), (''range'', ''bytes=100-200'')]) =
       Some \<lparr>status = 416, headers = [''content-range'' \<mapsto> ''bytes */13''], body = No_body\<rparr>
   \<and> [''content-range'' \<mapsto> ''bytes */13''] ''vary'' = None"
proof -
  have r: "range_of (get ''/data.txt'' [(''accept-encoding'', ''identity''), (''range'', ''bytes=100-200'')]) None
           = Some (''100'', ''200'')"
    by (simp add: range_of_def get_def match_here_def startsWith_def is_digit_def digit_chars_def)
  have n: "negotiate data_txt ''identity'' h = (''/srv/data.txt'', None, h(''vary'' \<mapsto> ''Accept-Encoding''))" for h
    by (simp add: negotiate_def data_txt_fields startsWith_def)
  have s: "serve (get ''/data.txt'' [(''accept-encoding'', ''identity''), (''range'', ''bytes=100-200'')]) =
      Some (range_response data_txt ''/srv/data.txt''
             ((base_headers site_date None data_txt ''/data.txt'')(''vary'' \<mapsto> ''Accept-Encoding''))
             ''100'' ''200'')"
    using r
    by (simp add: serve_def handle_def Let_def site_index_def strip_base_def not_modified_def
        data_txt_etag accept_encoding_of_def n get_def)
  show ?thesis
    unfolding s
    by (simp add: range_response_def Let_def parseInt_def digit_value_def data_txt_fields
        String_of_def digit_chars_def)
qed

section \<open>Properties of the upgrade bridge\<close>

text \<open>
  C6, as the code has it. When the user module defines \<open>upgrade\<close> and the callback returns
  without having called the facade's \<open>upgrade\<close> method, the handshake is not completed
  and \<open>open\<close> is never invoked for the connection. The socket is destroyed when the value
  returned is a \<open>Response\<close>; for any other value the bridge just returns and leaves the
  socket as it is.
\<close>

theorem upgrade_without_facade_call:
  assumes "sec_websocket_protocol req \<noteq> Some ''vite-hmr''"
    and "imported = Some handler"
    and "upgrade handler = Some callback"
    and "url_ok req"
    and "facade_calls (callback req) = []"
    and "ending (callback req) \<noteq> Thrown"
  shows "socket (handleUpgrade req imported) =
           (if ending (callback req) = Returned_Response then Destroyed else Untouched)
       \<and> (\<forall>d a. socket (handleUpgrade req imported) \<noteq> Upgraded d a)
       \<and> \<not> open_called (handleUpgrade req imported)"
  using assms by (simp add: handleUpgrade_def Let_def)

theorem upgrade_without_facade_call_witness:
  "socket (handleUpgrade plain_upgrade_request (Some forbidding_module)) = Destroyed
   \<and> \<not> open_called (handleUpgrade plain_upgrade_request (Some forbidding_module))
   \<and> socket (handleUpgrade plain_upgrade_request (Some silent_module)) = Untouched
   \<and> \<not> open_called (handleUpgrade plain_upgrade_request (Some silent_module))"
proof -
  have p: "sec_websocket_protocol plain_upgrade_request \<noteq> Some ''vite-hmr''" "url_ok plain_upgrade_request"
    by (simp_all add: plain_upgrade_request_def)
  have f: "upgrade forbidding_module = Some (\<lambda>req. \<lparr>facade_calls = [], ending = Returned_Response\<rparr>)"
    by (simp add: forbidding_module_def)
  have s: "upgrade silent_module = Some (\<lambda>req. \<lparr>facade_calls = [], ending = Returned_other\<rparr>)"
    by (simp add: silent_module_def)
  from upgrade_without_facade_call[OF p(1) refl f p(2)] upgrade_without_facade_call[OF p(1) refl s p(2)]
  show ?thesis by simp
qed

text \<open>
  A callback that returns nothing and never calls the facade: the socket is not
  destroyed.
\<close>

theorem silent_rejection_counterexample:
  "upgrade silent_module \<noteq> None
   \<and> facade_calls (the (upgrade silent_module) plain_upgrade_request) = []
   \<and> ending (the (upgrade silent_module) plain_upgrade_request) = Returned_other
   \<and> socket (handleUpgrade plain_upgrade_request (Some silent_module)) = Untouched
   \<and> socket (handleUpgrade plain_upgrade_request (Some silent_module)) \<noteq> Destroyed"
  by (simp add: handleUpgrade_def Let_def silent_module_def plain_upgrade_request_def)

end
